theory Spec2Isabelle
  imports Main
begin

section \<open>JavaScript values\<close>

text \<open>
  The module reads documents of an untyped store (\<open>any[]\<close>) and casts them to its
  record interface without a check, so a field holds any value the store can hold:
  nothing, null, a boolean, a number, a string, an array or a map. Numbers are the
  integers (exact below \<open>2^53\<close>; fractions, NaN and the rounding of larger values are
  outside the model). A string is a sequence of the code units U+0000 to U+00FF.
  An object is the list of its own properties in the order \<open>Object.keys\<close> gives them.
\<close>

datatype jsval =
    JUndefined
  | JNull
  | JBool bool
  | JNum int
  | JStr string
  | JArr "jsval list"
  | JObj "(string \<times> jsval) list"

type_synonym jsobj = "(string \<times> jsval) list"

datatype js_error = TypeError

text \<open>\<open>!!v\<close>: arrays and objects are truthy, also when empty.\<close>

fun truthy :: "jsval \<Rightarrow> bool" where
  "truthy JUndefined = False"
| "truthy JNull = False"
| "truthy (JBool b) = b"
| "truthy (JNum n) = (n \<noteq> 0)"
| "truthy (JStr s) = (s \<noteq> [])"
| "truthy (JArr xs) = True"
| "truthy (JObj kvs) = True"

fun nullish :: "jsval \<Rightarrow> bool" where
  "nullish JUndefined = True"
| "nullish JNull = True"
| "nullish v = False"

text \<open>\<open>a || b\<close>\<close>

definition js_or :: "jsval \<Rightarrow> jsval \<Rightarrow> jsval" where
  "js_or a b = (if truthy a then a else b)"

text \<open>
  \<open>a === b\<close>. Arrays and objects compare by reference; every comparison in the module
  is between values of two different snapshots (or a snapshot and the form), which never
  share a reference, so such a comparison is false.
\<close>

fun strict_eq :: "jsval \<Rightarrow> jsval \<Rightarrow> bool" where
  "strict_eq JUndefined b = (b = JUndefined)"
| "strict_eq JNull b = (b = JNull)"
| "strict_eq (JBool x) b = (b = JBool x)"
| "strict_eq (JNum x) b = (b = JNum x)"
| "strict_eq (JStr x) b = (b = JStr x)"
| "strict_eq (JArr xs) b = False"
| "strict_eq (JObj kvs) b = False"

text \<open>\<open>o[k]\<close> on a value that is not nullish: only objects carry the names the module asks for.\<close>

fun get_prop :: "jsval \<Rightarrow> string \<Rightarrow> jsval" where
  "get_prop (JObj kvs) k = (case map_of kvs k of Some v \<Rightarrow> v | None \<Rightarrow> JUndefined)"
| "get_prop v k = JUndefined"

text \<open>\<open>d.k\<close> on a document of a snapshot.\<close>

definition field :: "jsobj \<Rightarrow> string \<Rightarrow> jsval" where
  "field d k = get_prop (JObj d) k"

subsection \<open>Strings\<close>

definition digit_char :: "nat \<Rightarrow> char" where
  "digit_char d = char_of (48 + d)"

fun string_of_nat :: "nat \<Rightarrow> string" where
  "string_of_nat n =
     (if n < 10 then [digit_char n] else string_of_nat (n div 10) @ [digit_char (n mod 10)])"

declare string_of_nat.simps [simp del]

definition string_of_int :: "int \<Rightarrow> string" where
  "string_of_int i = (if i < 0 then CHR ''-'' # string_of_nat (nat (- i)) else string_of_nat (nat i))"

fun join_comma :: "string list \<Rightarrow> string" where
  "join_comma [] = []"
| "join_comma [s] = s"
| "join_comma (s # t # ss) = s @ '','' @ join_comma (t # ss)"

text \<open>\<open>String(v)\<close>; an array joins its elements with commas, a nullish element giving the empty text.\<close>

fun to_String :: "jsval \<Rightarrow> string" where
  "to_String JUndefined = ''undefined''"
| "to_String JNull = ''null''"
| "to_String (JBool b) = (if b then ''true'' else ''false'')"
| "to_String (JNum n) = string_of_int n"
| "to_String (JStr s) = s"
| "to_String (JArr xs) = join_comma (map (\<lambda>x. if nullish x then [] else to_String x) xs)"
| "to_String (JObj kvs) = ''[object Object]''"

text \<open>White space and line terminators of the language, within U+0000 to U+00FF.\<close>

definition is_space :: "char \<Rightarrow> bool" where
  "is_space c = (of_char c \<in> {9, 10, 11, 12, 13, 32, 160 :: nat})"

definition trim :: "string \<Rightarrow> string" where
  "trim s = rev (dropWhile is_space (rev (dropWhile is_space s)))"

definition lower_char :: "char \<Rightarrow> char" where
  "lower_char c =
     (let n = (of_char c :: nat)
      in if (65 \<le> n \<and> n \<le> 90) \<or> (192 \<le> n \<and> n \<le> 222 \<and> n \<noteq> 215) then char_of (n + 32) else c)"

definition toLowerCase :: "string \<Rightarrow> string" where
  "toLowerCase s = map lower_char s"

section \<open>Shipment receipt records\<close>

record VSRIRecord =
  id' :: jsval
  receivedDate :: jsval
  indentNo :: jsval
  poNo :: jsval
  oaNo :: jsval
  purchaseBatchNo :: jsval
  vendorBatchNo :: jsval
  dcNo :: jsval
  invoiceDcNo :: jsval
  vendorName :: jsval
  itemName :: jsval
  itemCode :: jsval
  qtyReceived :: jsval
  okQty :: jsval
  reworkQty :: jsval
  rejectQty :: jsval
  grnNo :: jsval
  remarks :: jsval

section \<open>Helpers\<close>

definition makeKey :: "jsval \<Rightarrow> jsval \<Rightarrow> string" where
  "makeKey p c = toLowerCase (trim (to_String p)) @ ''|'' @ toLowerCase (trim (to_String c))"

text \<open>The business key of a record, as every caller computes it.\<close>

definition rec_key :: "VSRIRecord \<Rightarrow> string" where
  "rec_key r = makeKey (poNo r) (itemCode r)"

text \<open>
  The business key as the data model describes it: the pair of the purchase order number
  and the item code, each as text, trimmed and without case. It is not computed by the
  module, which compares the texts \<open>makeKey\<close> builds.
\<close>

definition norm_pair :: "VSRIRecord \<Rightarrow> string \<times> string" where
  "norm_pair r =
     (toLowerCase (trim (to_String (poNo r))), toLowerCase (trim (to_String (itemCode r))))"

text \<open>
  \<open>Map.prototype.set\<close>: a map iterates in the order its keys were first inserted, and
  setting a key it holds replaces the value where it stands.
\<close>

fun map_set :: "('k \<times> 'v) list \<Rightarrow> 'k \<Rightarrow> 'v \<Rightarrow> ('k \<times> 'v) list" where
  "map_set [] k v = [(k, v)]"
| "map_set ((k', v') # m) k v = (if k' = k then (k, v) # m else (k', v') # map_set m k v)"

definition map_values :: "('k \<times> 'v) list \<Rightarrow> 'v list" where
  "map_values m = map snd m"

fun dedup_loop :: "(string \<times> VSRIRecord) list \<Rightarrow> VSRIRecord list \<Rightarrow> (string \<times> VSRIRecord) list" where
  "dedup_loop m [] = m"
| "dedup_loop m (r # arr) = dedup_loop (map_set m (makeKey (poNo r) (itemCode r)) r) arr"

text \<open>The invariant of the loop: the map holds each key once, at the record it was computed from.\<close>

definition keyed :: "(string \<times> VSRIRecord) list \<Rightarrow> bool" where
  "keyed m = (distinct (map fst m) \<and> list_all (\<lambda>(k, r). k = rec_key r) m)"

definition deduplicateVSIRRecords :: "VSRIRecord list \<Rightarrow> VSRIRecord list" where
  "deduplicateVSIRRecords arr = map_values (dedup_loop [] arr)"


text \<open>The form's state before any input (\<open>useState\<close> of \<open>itemInput\<close>); it carries no id.\<close>

definition initialInput :: VSRIRecord where
  "initialInput =
     \<lparr> id' = JUndefined, receivedDate = JStr [], indentNo = JStr [], poNo = JStr [],
       oaNo = JStr [], purchaseBatchNo = JStr [], vendorBatchNo = JStr [], dcNo = JStr [],
       invoiceDcNo = JStr [], vendorName = JStr [], itemName = JStr [], itemCode = JStr [],
       qtyReceived = JNum 0, okQty = JNum 0, reworkQty = JNum 0, rejectQty = JNum 0,
       grnNo = JStr [], remarks = JStr [] \<rparr>"

subsection \<open>Reading purchase orders\<close>

fun typeof :: "jsval \<Rightarrow> string" where
  "typeof JUndefined = ''undefined''"
| "typeof JNull = ''object''"
| "typeof (JBool b) = ''boolean''"
| "typeof (JNum n) = ''number''"
| "typeof (JStr s) = ''string''"
| "typeof (JArr xs) = ''object''"
| "typeof (JObj kvs) = ''object''"

text \<open>\<open>Object.keys\<close> and \<open>Object.values\<close>; an array's keys are its indices.\<close>

fun own_keys :: "jsval \<Rightarrow> string list" where
  "own_keys (JObj kvs) = map fst kvs"
| "own_keys (JArr xs) = map string_of_nat [0..<length xs]"
| "own_keys v = []"

fun own_values :: "jsval \<Rightarrow> jsval list" where
  "own_values (JObj kvs) = map snd kvs"
| "own_values (JArr xs) = xs"
| "own_values v = []"

text \<open>\<open>/po/i.test(k)\<close>\<close>

fun test_po :: "string \<Rightarrow> bool" where
  "test_po (a # b # s) =
     (((a = CHR ''p'' \<or> a = CHR ''P'') \<and> (b = CHR ''o'' \<or> b = CHR ''O'')) \<or> test_po (b # s))"
| "test_po s = False"

definition candidates :: "string list" where
  "candidates = [''poNo'', ''materialPurchasePoNo'', ''po_no'', ''poNumber'', ''purchasePoNo'', ''poNumberStr'']"

definition getOrderPoNo :: "jsval \<Rightarrow> jsval" where
  "getOrderPoNo order =
     (if \<not> truthy order \<or> typeof order \<noteq> ''object'' then JUndefined
      else case find (\<lambda>k. truthy (get_prop order k)) candidates of
             Some k \<Rightarrow> get_prop order k
           | None \<Rightarrow>
               (case find (\<lambda>k. test_po k \<and> truthy (get_prop order k)) (own_keys order) of
                  Some k \<Rightarrow> get_prop order k
                | None \<Rightarrow> JUndefined))"

definition looksLikeItem :: "jsval \<Rightarrow> bool" where
  "looksLikeItem obj =
     (if \<not> truthy obj \<or> typeof obj \<noteq> ''object'' then False
      else let keys = map toLowerCase (own_keys obj)
           in ''itemcode'' \<in> set keys \<or> ''item_name'' \<in> set keys
              \<or> ''itemname'' \<in> set keys \<or> ''model'' \<in> set keys)"

text \<open>\<open>Array.isArray(v) && v.length > 0\<close>, and the same with \<open>looksLikeItem(v[0])\<close>.\<close>

fun nonempty_array :: "jsval \<Rightarrow> bool" where
  "nonempty_array (JArr (x # xs)) = True"
| "nonempty_array v = False"

fun item_array :: "jsval \<Rightarrow> bool" where
  "item_array (JArr (x # xs)) = looksLikeItem x"
| "item_array v = False"

definition itemKeys :: "string list" where
  "itemKeys = [''items'', ''materials'', ''products'', ''lines'', ''orderItems'', ''itemsList'']"

definition getOrderItems :: "jsval \<Rightarrow> jsval list" where
  "getOrderItems order =
     (if \<not> truthy order \<or> typeof order \<noteq> ''object'' then []
      else if looksLikeItem order then [order]
      else case find (\<lambda>k. nonempty_array (get_prop order k)) itemKeys of
             Some k \<Rightarrow> own_values (get_prop order k)
           | None \<Rightarrow>
               (case find item_array (own_values order) of
                  Some v \<Rightarrow> own_values v
                | None \<Rightarrow> if item_array order then own_values order else []))"

section \<open>Component state and effects\<close>

record ItemMasterEntry =
  im_itemName :: string
  im_itemCode :: string

text \<open>
  The state of the component. The snapshots of the store hold documents, which are
  objects; a purchase order is handed to \<open>getOrderPoNo\<close> and \<open>getOrderItems\<close>, which
  guard their input themselves. \<open>existingCombinations\<close> is the set the ref holds.
\<close>

record vsir_state =
  userUid :: "string option"
  records :: "VSRIRecord list"
  itemMaster :: "ItemMasterEntry list"
  vendorDeptOrders :: "jsobj list"
  vendorIssues :: "jsobj list"
  purchaseData :: "jsval list"
  purchaseOrders :: "jsval list"
  psirData :: "jsobj list"
  autoDeleteEnabled :: bool
  autoImportEnabled :: bool
  itemInput :: VSRIRecord
  existingCombinations :: "string set"

text \<open>What a handler or rule does to the outside: a message to the operator, or a call of the store.\<close>

datatype effect =
    Alert string
  | AddVSIRRecord string VSRIRecord
  | UpdateVSIRRecord string string VSRIRecord
  | DeleteVSIRRecord string string

text \<open>The state the component mounts with.\<close>

definition initialState :: vsir_state where
  "initialState =
     \<lparr> userUid = None, records = [], itemMaster = [], vendorDeptOrders = [], vendorIssues = [],
       purchaseData = [], purchaseOrders = [], psirData = [], autoDeleteEnabled = False,
       autoImportEnabled = False, itemInput = initialInput, existingCombinations = {} \<rparr>"

text \<open>\<open>!userUid\<close> is true of null and of the empty text.\<close>

definition signed_in :: "vsir_state \<Rightarrow> string option" where
  "signed_in st = (case userUid st of None \<Rightarrow> None | Some u \<Rightarrow> if u = [] then None else Some u)"

text \<open>The rule that rebuilds the deduplication cache whenever the records change.\<close>

definition update_dedup_cache :: "vsir_state \<Rightarrow> vsir_state" where
  "update_dedup_cache st =
     st\<lparr>existingCombinations := set (map (\<lambda>r. makeKey (poNo r) (itemCode r)) (records st))\<rparr>"

subsection \<open>Vendor batch numbers\<close>

definition is_digit :: "char \<Rightarrow> bool" where
  "is_digit c = (48 \<le> (of_char c :: nat) \<and> (of_char c :: nat) \<le> 57)"

text \<open>\<open>String(new Date().getFullYear()).slice(2)\<close>, the year being read from the clock.\<close>

definition yy_of_year :: "nat \<Rightarrow> string" where
  "yy_of_year year = drop 2 (string_of_nat year)"

text \<open>
  \<open>s.match(new RegExp(`${yy}/V(\\d+)`))\<close>: the digits captured by the leftmost match,
  which may begin anywhere in \<open>s\<close>; \<open>yy\<close> holds digits only, so it stands for itself.
\<close>

fun regex_match :: "string \<Rightarrow> string \<Rightarrow> string option" where
  "regex_match yy [] = None"
| "regex_match yy (c # s) =
     (let pre = yy @ ''/V''; ds = takeWhile is_digit (drop (length pre) (c # s))
      in if take (length pre) (c # s) = pre \<and> ds \<noteq> [] then Some ds else regex_match yy s)"

text \<open>
  Numbers are doubles. Every integer up to \<open>2^53\<close> is a double, so a run of digits
  with a value up to \<open>2^53\<close> is parsed to that value, the maximum of such values is
  exact and they print as their digits. \<open>2^53 + 1\<close> is no double: the sum rounds to
  the even neighbour \<open>2^53\<close>. A run of digits with a larger value is outside the
  model, which then has no result (\<open>None\<close>): the double it is rounded to, and the way
  that double prints, are not described here.
\<close>

definition two53 :: nat where
  "two53 = 9007199254740992"

definition digits_value :: "string \<Rightarrow> nat" where
  "digits_value ds = foldl (\<lambda>a c. 10 * a + (of_char c - 48)) 0 ds"

text \<open>\<open>parseInt(ds, 10)\<close> on a run of digits.\<close>

definition parseInt :: "string \<Rightarrow> nat option" where
  "parseInt ds = (if digits_value ds \<le> two53 then Some (digits_value ds) else None)"

text \<open>\<open>maxNum + 1\<close> for a \<open>maxNum\<close> up to \<open>2^53\<close>.\<close>

definition plus_one :: "nat \<Rightarrow> nat" where
  "plus_one m = (if m < two53 then m + 1 else m)"

text \<open>
  \<open>v?.match?.(re)\<close>: nothing for a nullish \<open>v\<close> and for a \<open>v\<close> without a \<open>match\<close>
  property (numbers, booleans, arrays, most objects); the search for a string; an object
  whose own \<open>match\<close> is not nullish is called, and it is not a function.
\<close>

fun opt_match :: "string \<Rightarrow> jsval \<Rightarrow> js_error + string option" where
  "opt_match yy (JStr s) = Inr (regex_match yy s)"
| "opt_match yy (JObj kvs) =
     (if nullish (get_prop (JObj kvs) ''match'') then Inr None else Inl TypeError)"
| "opt_match yy v = Inr None"

text \<open>One \<open>forEach\<close> of the scan; an exception leaves it with the maximum reached so far.\<close>

fun scan_batch :: "string \<Rightarrow> nat \<Rightarrow> jsval list \<Rightarrow> (nat \<times> js_error option) option" where
  "scan_batch yy maxNum [] = Some (maxNum, None)"
| "scan_batch yy maxNum (v # vs) =
     (case opt_match yy v of
        Inl e \<Rightarrow> Some (maxNum, Some e)
      | Inr None \<Rightarrow> scan_batch yy maxNum vs
      | Inr (Some ds) \<Rightarrow>
          (case parseInt ds of
             None \<Rightarrow> None
           | Some n \<Rightarrow> scan_batch yy (max maxNum n) vs))"

definition generateVendorBatchNo :: "nat \<Rightarrow> vsir_state \<Rightarrow> string option" where
  "generateVendorBatchNo year st =
     (let yy = yy_of_year year
      in case scan_batch yy 0 (map vendorBatchNo (records st)) of
           None \<Rightarrow> None
         | Some (m1, e1) \<Rightarrow>
             (case (case e1 of
                      None \<Rightarrow> scan_batch yy m1 (map (\<lambda>d. field d ''vendorBatchNo'') (vendorDeptOrders st))
                    | Some e \<Rightarrow> Some (m1, Some e)) of
                None \<Rightarrow> None
              | Some (m2, e2) \<Rightarrow> Some (yy @ ''/V'' @ string_of_nat (plus_one m2))))"

text \<open>
  What the scan reads, in its order: the batch number of every record, then of every
  department order. A field counts with the value of the digits its match captures; the
  scan ends at a field whose call throws.
\<close>

definition batch_fields :: "vsir_state \<Rightarrow> jsval list" where
  "batch_fields st =
     map vendorBatchNo (records st) @ map (\<lambda>d. field d ''vendorBatchNo'') (vendorDeptOrders st)"

fun batch_value :: "string \<Rightarrow> jsval \<Rightarrow> nat option" where
  "batch_value yy (JStr s) = map_option digits_value (regex_match yy s)"
| "batch_value yy v = None"

fun stops_scan :: "jsval \<Rightarrow> bool" where
  "stops_scan (JObj kvs) = (case map_of kvs ''match'' of None \<Rightarrow> False | Some v \<Rightarrow> \<not> nullish v)"
| "stops_scan v = False"

text \<open>The first document of a snapshot for a purchase order, and its batch number when it has one.\<close>

definition batch_of_match :: "jsobj list \<Rightarrow> jsval \<Rightarrow> jsval option" where
  "batch_of_match docs po =
     (case find (\<lambda>d. strict_eq (field d ''materialPurchasePoNo'') po) docs of
        None \<Rightarrow> None
      | Some m \<Rightarrow> if truthy (field m ''vendorBatchNo'') then Some (field m ''vendorBatchNo'') else None)"

definition getVendorBatchNoForPO :: "vsir_state \<Rightarrow> jsval \<Rightarrow> jsval" where
  "getVendorBatchNoForPO st po =
     (if \<not> truthy po then JStr []
      else case batch_of_match (vendorDeptOrders st) po of
             Some v \<Rightarrow> v
           | None \<Rightarrow>
               (case batch_of_match (vendorIssues st) po of
                  Some v \<Rightarrow> v
                | None \<Rightarrow> JStr []))"


subsection \<open>The user and the snapshots of the records\<close>

text \<open>
  The callback of \<open>onAuthStateChanged\<close>, with the uid of the user or nothing. Without
  a uid every snapshot is cleared in the same callback; with one, the subscriptions are
  opened.
\<close>

definition on_auth_state_changed :: "vsir_state \<Rightarrow> string option \<Rightarrow> vsir_state" where
  "on_auth_state_changed st uid =
     (let st' = st\<lparr>userUid := uid\<rparr>
      in case signed_in st' of
           None \<Rightarrow> st'\<lparr>records := [], vendorDeptOrders := [], psirData := [], purchaseData := [],
                       purchaseOrders := [], itemMaster := [], vendorIssues := []\<rparr>
         | Some u \<Rightarrow> st')"

text \<open>
  The callback of \<open>subscribeVSIRRecords\<close>. The subscription is opened for a signed-in
  user and closed by \<open>unsubscribeAll\<close> at the next change of the user, so a snapshot
  arrives only while a user is signed in.
\<close>

definition on_vsir_snapshot :: "vsir_state \<Rightarrow> VSRIRecord list \<Rightarrow> vsir_state" where
  "on_vsir_snapshot st docs =
     (case signed_in st of
        None \<Rightarrow> st
      | Some u \<Rightarrow> st\<lparr>records := deduplicateVSIRRecords docs\<rparr>)"

text \<open>What these callbacks keep: without a signed-in user there are no records.\<close>

definition signed_out_cleared :: "vsir_state \<Rightarrow> bool" where
  "signed_out_cleared st = (signed_in st = None \<longrightarrow> records st = [])"

section \<open>Reconciliation rules\<close>

subsection \<open>Auto-delete\<close>

text \<open>The operator's answer to \<open>window.confirm\<close> is an input of the rule.\<close>

definition delete_one :: "string \<Rightarrow> VSRIRecord \<Rightarrow> effect list" where
  "delete_one uid rec =
     (if \<not> truthy (id' rec) then [] else [DeleteVSIRRecord uid (to_String (id' rec))])"

definition auto_delete :: "vsir_state \<Rightarrow> bool \<Rightarrow> effect list" where
  "auto_delete st confirmed =
     (case signed_in st of
        None \<Rightarrow> []
      | Some uid \<Rightarrow>
          if \<not> autoDeleteEnabled st then []
          else if purchaseData st = [] \<and> records st \<noteq> [] then
            (if \<not> confirmed then [] else concat (map (delete_one uid) (records st)))
          else [])"

subsection \<open>Auto-import\<close>

text \<open>
  \<open>vendorDeptOrders.find(v => String(v.materialPurchasePoNo).trim() === String(poNo).trim())\<close>,
  the lookup several rules share, on the field the snapshot names the purchase order by.
\<close>

definition find_po :: "string \<Rightarrow> jsobj list \<Rightarrow> jsval \<Rightarrow> jsobj option" where
  "find_po k docs po = find (\<lambda>d. trim (to_String (field d k)) = trim (to_String po)) docs"

definition match_field :: "jsobj option \<Rightarrow> string \<Rightarrow> jsval" where
  "match_field m k = (case m of None \<Rightarrow> JUndefined | Some d \<Rightarrow> field d k)"

definition newRecord :: "string \<Rightarrow> jsval \<Rightarrow> jsval \<Rightarrow> jsval \<Rightarrow> jsval \<Rightarrow> jsval \<Rightarrow> VSRIRecord" where
  "newRecord fresh po oa batchNo item code =
     \<lparr> id' = JStr fresh, receivedDate = JStr [], indentNo = JStr [], poNo = po,
       oaNo = oa, purchaseBatchNo = batchNo, vendorBatchNo = JStr [], dcNo = JStr [],
       invoiceDcNo = JStr [], vendorName = JStr [],
       itemName = js_or (get_prop item ''itemName'') (js_or (get_prop item ''model'') (JStr [])),
       itemCode = code,
       qtyReceived = js_or (get_prop item ''qty'') (JNum 0),
       okQty = JNum 0, reworkQty = JNum 0, rejectQty = JNum 0,
       grnNo = JStr [], remarks = JStr [] \<rparr>"

text \<open>
  The inner loop over the line items of one order. \<open>ids n\<close> is the id
  \<open>Math.random().toString(36).slice(2)\<close> gives the \<open>n\<close>-th record built. Reading
  \<open>item.itemCode\<close> of a nullish item throws, which ends the run. A rejected
  \<open>addVSIRRecord\<close> is logged and the loop goes on, so the call is the effect either way.
\<close>

fun import_items ::
  "string \<Rightarrow> string set \<Rightarrow> jsval \<Rightarrow> jsval \<Rightarrow> jsval \<Rightarrow> (nat \<Rightarrow> string) \<Rightarrow> nat \<Rightarrow> jsval list
     \<Rightarrow> effect list \<times> nat \<times> js_error option" where
  "import_items uid currentCombinations po oa batchNo ids n [] = ([], n, None)"
| "import_items uid currentCombinations po oa batchNo ids n (item # items) =
     (if nullish item then ([], n, Some TypeError)
      else let code = js_or (get_prop item ''itemCode'') (JStr []);
               key = makeKey po code
           in if key \<in> currentCombinations
              then import_items uid currentCombinations po oa batchNo ids n items
              else let (es, n', err) =
                         import_items uid currentCombinations po oa batchNo ids (Suc n) items
                   in (AddVSIRRecord uid (newRecord (ids n) po oa batchNo item code) # es, n', err))"

fun import_orders ::
  "string \<Rightarrow> string set \<Rightarrow> jsobj list \<Rightarrow> (nat \<Rightarrow> string) \<Rightarrow> nat \<Rightarrow> jsval list
     \<Rightarrow> effect list \<times> js_error option" where
  "import_orders uid currentCombinations depts ids n [] = ([], None)"
| "import_orders uid currentCombinations depts ids n (order # sourceData) =
     (let po = getOrderPoNo order
      in if \<not> truthy po then import_orders uid currentCombinations depts ids n sourceData
         else let items = getOrderItems order
              in if items = [] then import_orders uid currentCombinations depts ids n sourceData
                 else let vendorDeptMatch = find_po ''materialPurchasePoNo'' depts po;
                          oa = js_or (match_field vendorDeptMatch ''oaNo'') (JStr []);
                          batchNo = js_or (match_field vendorDeptMatch ''batchNo'') (JStr [])
                      in case import_items uid currentCombinations po oa batchNo ids n items of
                           (es, n', Some e) \<Rightarrow> (es, Some e)
                         | (es, n', None) \<Rightarrow>
                             (let (es', err) =
                                    import_orders uid currentCombinations depts ids n' sourceData
                              in (es @ es', err)))"

definition runImport ::
  "vsir_state \<Rightarrow> jsval list option \<Rightarrow> (nat \<Rightarrow> string) \<Rightarrow> effect list \<times> js_error option" where
  "runImport st providedSource ids =
     (case signed_in st of
        None \<Rightarrow> ([], None)
      | Some uid \<Rightarrow>
          (let sourceData =
                 (case providedSource of
                    Some src \<Rightarrow> src
                  | None \<Rightarrow> if purchaseOrders st \<noteq> [] then purchaseOrders st else purchaseData st)
           in if sourceData = [] then ([], None)
              else import_orders uid (existingCombinations st) (vendorDeptOrders st) ids 0 sourceData))"

text \<open>The rule around it: the toggle, then the operator's confirmation.\<close>

definition auto_import :: "vsir_state \<Rightarrow> bool \<Rightarrow> (nat \<Rightarrow> string) \<Rightarrow> effect list \<times> js_error option" where
  "auto_import st confirmed ids =
     (if \<not> autoImportEnabled st then ([], None)
      else if \<not> confirmed then ([], None)
      else runImport st None ids)"

subsection \<open>Auto-fill of the indent number from prior receipts\<close>

text \<open>The callback of \<open>records.map\<close>: whether it set \<open>updated\<close>, and the record it returns.\<close>

definition fill_indent :: "jsobj list \<Rightarrow> VSRIRecord \<Rightarrow> bool \<times> VSRIRecord" where
  "fill_indent psir record =
     (if truthy (poNo record) \<and> \<not> truthy (indentNo record) then
        (let m = match_field (find_po ''poNo'' psir (poNo record)) ''indentNo''
         in if truthy m \<and> \<not> strict_eq m (indentNo record)
            then (True, record\<lparr>indentNo := m\<rparr>)
            else (False, record))
      else (False, record))"

definition update_one :: "string \<Rightarrow> VSRIRecord \<Rightarrow> effect list" where
  "update_one uid rec =
     (if \<not> truthy (id' rec) then [] else [UpdateVSIRRecord uid (to_String (id' rec)) rec])"

definition auto_fill_indent :: "vsir_state \<Rightarrow> vsir_state \<times> effect list" where
  "auto_fill_indent st =
     (case signed_in st of
        None \<Rightarrow> (st, [])
      | Some uid \<Rightarrow>
          if psirData st = [] \<or> records st = [] then (st, [])
          else let results = map (fill_indent (psirData st)) (records st);
                   updated = list_ex fst results;
                   updatedRecords = map snd results
               in if updated
                  then (st\<lparr>records := updatedRecords\<rparr>, concat (map (update_one uid) updatedRecords))
                  else (st, []))"

section \<open>The form\<close>

text \<open>The rule that fills the form's indent number when its purchase order changes.\<close>

definition form_fill_indent :: "vsir_state \<Rightarrow> vsir_state" where
  "form_fill_indent st =
     (if \<not> truthy (poNo (itemInput st)) \<or> psirData st = [] then st
      else let m = match_field (find_po ''poNo'' (psirData st) (poNo (itemInput st))) ''indentNo''
           in if truthy m then st\<lparr>itemInput := (itemInput st)\<lparr>indentNo := m\<rparr>\<rparr> else st)"

text \<open>\<open>e.target\<close> of a change event.\<close>

record change_event =
  ev_name :: string
  ev_value :: string
  ev_type :: string

text \<open>
  \<open>{ ...prev, [name]: v }\<close> for the fields the form is built from; another name adds a
  property the record interface does not have, and leaves these as they are.
\<close>

definition set_field :: "string \<Rightarrow> jsval \<Rightarrow> VSRIRecord \<Rightarrow> VSRIRecord" where
  "set_field k v r =
     (if k = ''receivedDate'' then r\<lparr>receivedDate := v\<rparr>
      else if k = ''indentNo'' then r\<lparr>indentNo := v\<rparr>
      else if k = ''poNo'' then r\<lparr>poNo := v\<rparr>
      else if k = ''oaNo'' then r\<lparr>oaNo := v\<rparr>
      else if k = ''purchaseBatchNo'' then r\<lparr>purchaseBatchNo := v\<rparr>
      else if k = ''vendorBatchNo'' then r\<lparr>vendorBatchNo := v\<rparr>
      else if k = ''dcNo'' then r\<lparr>dcNo := v\<rparr>
      else if k = ''invoiceDcNo'' then r\<lparr>invoiceDcNo := v\<rparr>
      else if k = ''vendorName'' then r\<lparr>vendorName := v\<rparr>
      else if k = ''itemName'' then r\<lparr>itemName := v\<rparr>
      else if k = ''itemCode'' then r\<lparr>itemCode := v\<rparr>
      else if k = ''qtyReceived'' then r\<lparr>qtyReceived := v\<rparr>
      else if k = ''okQty'' then r\<lparr>okQty := v\<rparr>
      else if k = ''reworkQty'' then r\<lparr>reworkQty := v\<rparr>
      else if k = ''rejectQty'' then r\<lparr>rejectQty := v\<rparr>
      else if k = ''grnNo'' then r\<lparr>grnNo := v\<rparr>
      else if k = ''remarks'' then r\<lparr>remarks := v\<rparr>
      else if k = ''id'' then r\<lparr>id' := v\<rparr>
      else r)"

text \<open>\<open>Number(value)\<close> of a number input is a parameter: it may be a fraction or NaN.\<close>

definition handleChange :: "(string \<Rightarrow> jsval) \<Rightarrow> vsir_state \<Rightarrow> change_event \<Rightarrow> vsir_state" where
  "handleChange Number st e =
     (if ev_name e = ''itemName'' then
        (let found = find (\<lambda>item. im_itemName item = ev_value e) (itemMaster st)
         in st\<lparr>itemInput := (itemInput st)
                 \<lparr>itemName := JStr (ev_value e),
                  itemCode := (case found of Some f \<Rightarrow> JStr (im_itemCode f) | None \<Rightarrow> JStr [])\<rparr>\<rparr>)
      else st\<lparr>itemInput :=
                set_field (ev_name e)
                  (if ev_type e = ''number'' then Number (ev_value e) else JStr (ev_value e))
                  (itemInput st)\<rparr>)"

text \<open>
  \<open>v?.trim()\<close>: nothing for a nullish \<open>v\<close>, the trimmed text for a string; any other
  value has no function \<open>trim\<close> and the call throws.
\<close>

fun opt_trim :: "jsval \<Rightarrow> js_error + jsval" where
  "opt_trim JUndefined = Inr JUndefined"
| "opt_trim JNull = Inr JUndefined"
| "opt_trim (JStr s) = Inr (JStr (trim s))"
| "opt_trim v = Inl TypeError"

text \<open>
  \<open>{ ...existing, ...finalInput }\<close>: the form wins on every property it has. A form
  field that is \<open>JUndefined\<close> stands for a property the form does not have, as after
  editing a stored record that lacks it, and the stored value stays.
\<close>

definition over :: "jsval \<Rightarrow> jsval \<Rightarrow> jsval" where
  "over e f = (if f = JUndefined then e else f)"

definition merge_over :: "VSRIRecord \<Rightarrow> VSRIRecord \<Rightarrow> VSRIRecord" where
  "merge_over existing finalInput =
     \<lparr> id' = over (id' existing) (id' finalInput),
       receivedDate = over (receivedDate existing) (receivedDate finalInput),
       indentNo = over (indentNo existing) (indentNo finalInput),
       poNo = over (poNo existing) (poNo finalInput),
       oaNo = over (oaNo existing) (oaNo finalInput),
       purchaseBatchNo = over (purchaseBatchNo existing) (purchaseBatchNo finalInput),
       vendorBatchNo = over (vendorBatchNo existing) (vendorBatchNo finalInput),
       dcNo = over (dcNo existing) (dcNo finalInput),
       invoiceDcNo = over (invoiceDcNo existing) (invoiceDcNo finalInput),
       vendorName = over (vendorName existing) (vendorName finalInput),
       itemName = over (itemName existing) (itemName finalInput),
       itemCode = over (itemCode existing) (itemCode finalInput),
       qtyReceived = over (qtyReceived existing) (qtyReceived finalInput),
       okQty = over (okQty existing) (okQty finalInput),
       reworkQty = over (reworkQty existing) (reworkQty finalInput),
       rejectQty = over (rejectQty existing) (rejectQty finalInput),
       grnNo = over (grnNo existing) (grnNo finalInput),
       remarks = over (remarks existing) (remarks finalInput) \<rparr>"

text \<open>A field without content: missing, null, or a text of white space only.\<close>

fun blank :: "jsval \<Rightarrow> bool" where
  "blank JUndefined = True"
| "blank JNull = True"
| "blank (JStr s) = (trim s = [])"
| "blank v = False"

text \<open>
  The \<open>try\<close> block of the submit handler; \<open>store_ok\<close> tells whether the store accepts
  the write. The call is made either way, and a rejection is reported.
\<close>

definition save_record :: "vsir_state \<Rightarrow> string \<Rightarrow> bool \<Rightarrow> VSRIRecord \<Rightarrow> effect list" where
  "save_record st uid store_ok finalInput =
     (let key = makeKey (poNo finalInput) (itemCode finalInput);
          existing = find (\<lambda>r. makeKey (poNo r) (itemCode r) = key) (records st);
          write = (case existing of
                     Some ex \<Rightarrow> UpdateVSIRRecord uid (to_String (id' ex)) (merge_over ex finalInput)
                   | None \<Rightarrow> AddVSIRRecord uid finalInput)
      in if store_ok then [write] else [write, Alert ''Failed to save record. Check console.''])"

definition handleSubmit :: "vsir_state \<Rightarrow> bool \<Rightarrow> js_error + effect list" where
  "handleSubmit st store_ok =
     (case signed_in st of
        None \<Rightarrow> Inr [Alert ''You must be logged in.'']
      | Some uid \<Rightarrow>
          (let finalInput = itemInput st
           in case opt_trim (invoiceDcNo finalInput) of
                Inl e \<Rightarrow> Inl e
              | Inr hasInvoiceDcNo \<Rightarrow>
                  if truthy hasInvoiceDcNo then
                    (case opt_trim (vendorBatchNo finalInput) of
                       Inl e \<Rightarrow> Inl e
                     | Inr vbTrimmed \<Rightarrow>
                         if \<not> truthy vbTrimmed \<and> truthy (poNo finalInput) then
                           (let vb = getVendorBatchNoForPO st (poNo finalInput)
                            in if \<not> truthy vb then
                                 Inr [Alert ''Vendor Batch No could not be determined from VendorDept. Please save a VendorDept order for this PO first.'']
                               else Inr (save_record st uid store_ok (finalInput\<lparr>vendorBatchNo := vb\<rparr>)))
                         else Inr (save_record st uid store_ok finalInput))
                  else Inr (save_record st uid store_ok (finalInput\<lparr>vendorBatchNo := JStr []\<rparr>))))"


section \<open>Business keys\<close>

lemma of_char_less_256: "(of_char c :: nat) < 256"
  by (cases c) (simp add: of_char_def horner_sum_eq_sum del: of_char_Char)

lemma is_space_lower_char: "is_space (lower_char c) = is_space c"
  using of_char_less_256 [of c]
  by (auto simp: is_space_def lower_char_def Let_def)

lemma lower_char_idem: "lower_char (lower_char c) = lower_char c"
  using of_char_less_256 [of c]
  by (auto simp: lower_char_def Let_def)

lemma dropWhile_space_lower:
  "dropWhile is_space (map lower_char s) = map lower_char (dropWhile is_space s)"
  by (induction s) (auto simp: is_space_lower_char)

lemma trim_toLowerCase: "trim (toLowerCase s) = toLowerCase (trim s)"
  by (simp add: trim_def toLowerCase_def dropWhile_space_lower rev_map)

lemma toLowerCase_idem: "toLowerCase (toLowerCase s) = toLowerCase s"
  by (simp add: toLowerCase_def lower_char_idem)

lemma dropWhile_idem: "dropWhile P (dropWhile P xs) = dropWhile P xs"
  by (induction xs) auto

lemma trim_no_leading: "dropWhile is_space (trim s) = trim s"
proof -
  define t where "t = dropWhile is_space s"
  define u where "u = dropWhile is_space (rev t)"
  have tu: "trim s = rev u" by (simp add: trim_def t_def u_def)
  show ?thesis
  proof (cases "u = []")
    case True
    with tu show ?thesis by simp
  next
    case False
    obtain v where v: "rev t = v @ u"
      unfolding u_def by (metis takeWhile_dropWhile_id)
    then have t: "t = rev u @ rev v" by (metis rev_append rev_rev_ident)
    from False have ru: "rev u \<noteq> []" by simp
    have "t \<noteq> []" using t ru by simp
    then have "\<not> is_space (hd t)" unfolding t_def by (metis hd_dropWhile)
    moreover have "hd t = hd (rev u)" using t ru by simp
    ultimately have "\<not> is_space (hd (rev u))" by simp
    with ru have "dropWhile is_space (rev u) = rev u" by (cases "rev u") auto
    with tu show ?thesis by simp
  qed
qed

lemma trim_idem: "trim (trim s) = trim s"
proof -
  have "trim (trim s) = rev (dropWhile is_space (rev (trim s)))"
    by (simp add: trim_def [of "trim s"] trim_no_leading)
  also have "rev (trim s) = dropWhile is_space (rev (dropWhile is_space s))"
    by (simp add: trim_def)
  finally show ?thesis by (simp add: dropWhile_idem trim_def)
qed

lemma norm_undefined: "toLowerCase (trim ''undefined'') = ''undefined''" by code_simp

lemma norm_null: "toLowerCase (trim ''null'') = ''null''" by code_simp

lemma norm_empty: "toLowerCase (trim []) = []" by code_simp

text \<open>
  The separator does not occur in a normalised component that came from a text without
  it, so two keys are equal only when both normalised components are: for purchase order
  numbers without the separator, the key text stands for the normalised pair.
\<close>

lemma pipe_lower_char: "lower_char c = CHR ''|'' \<longleftrightarrow> c = CHR ''|''"
proof
  assume l: "lower_char c = CHR ''|''"
  define n where "n = (of_char c :: nat)"
  show "c = CHR ''|''"
  proof (cases "(65 \<le> n \<and> n \<le> 90) \<or> (192 \<le> n \<and> n \<le> 222 \<and> n \<noteq> 215)")
    case True
    then have "lower_char c = char_of (n + 32)" by (simp add: lower_char_def n_def Let_def)
    then have "(of_char (lower_char c) :: nat) = (n + 32) mod 256" by simp
    moreover have "(of_char (lower_char c) :: nat) = 124" by (simp add: l)
    ultimately have m: "(n + 32) mod 256 = 124" by simp
    from True have "n + 32 < 256" by auto
    then have "(n + 32) mod 256 = n + 32" by simp
    with m have "n = 92" by simp
    with True have False by simp
    then show ?thesis ..
  next
    case False
    then have "lower_char c = c" by (auto simp: lower_char_def n_def Let_def)
    with l show ?thesis by simp
  qed
next
  assume "c = CHR ''|''"
  then show "lower_char c = CHR ''|''" by (simp add: lower_char_def)
qed

lemma split_at_sep:
  assumes "a @ x # b = a' @ x # b'" "x \<notin> set a" "x \<notin> set a'"
  shows "a = a' \<and> b = b'"
  using assms
proof (induction a arbitrary: a')
  case Nil
  then show ?case by (cases a') auto
next
  case (Cons y a)
  then show ?case by (cases a') auto
qed

lemma pipe_norm: "CHR ''|'' \<notin> set s \<Longrightarrow> CHR ''|'' \<notin> set (toLowerCase (trim s))"
proof -
  assume a: "CHR ''|'' \<notin> set s"
  have "set (trim s) \<subseteq> set s"
  proof
    fix x
    assume "x \<in> set (trim s)"
    then have "x \<in> set (dropWhile is_space (rev (dropWhile is_space s)))"
      by (simp add: trim_def)
    then have "x \<in> set (rev (dropWhile is_space s))" by (rule set_dropWhileD)
    then have "x \<in> set (dropWhile is_space s)" by simp
    then show "x \<in> set s" by (rule set_dropWhileD)
  qed
  with a have t: "CHR ''|'' \<notin> set (trim s)" by blast
  show ?thesis
  proof
    assume "CHR ''|'' \<in> set (toLowerCase (trim s))"
    then obtain x where x: "x \<in> set (trim s)" "lower_char x = CHR ''|''"
      by (auto simp: toLowerCase_def)
    from x(2) have "x = CHR ''|''" by (simp only: pipe_lower_char)
    with x(1) t show False by simp
  qed
qed

lemma makeKey_injective:
  assumes "CHR ''|'' \<notin> set (to_String p)" "CHR ''|'' \<notin> set (to_String p')"
    and "makeKey p c = makeKey p' c'"
  shows "toLowerCase (trim (to_String p)) = toLowerCase (trim (to_String p'))
         \<and> toLowerCase (trim (to_String c)) = toLowerCase (trim (to_String c'))"
  using split_at_sep [OF _ pipe_norm [OF assms(1)] pipe_norm [OF assms(2)]] assms(3)
  by (simp add: makeKey_def)

text \<open>
  Claim C3, as amended. \<open>makeKey\<close> has a value for every input. The key is the
  trimmed, lower-cased text of the first input, the separator \<open>|\<close>, and the trimmed,
  lower-cased text of the second; it does not change when an input is lower-cased or
  trimmed beforehand. An empty text gives an empty component. A missing input does not:
  \<open>String\<close> turns undefined into the text \<open>undefined\<close> and null into the text
  \<open>null\<close>, and that text is the component.
\<close>

theorem makeKey_normalises:
  "makeKey p c = toLowerCase (trim (to_String p)) @ ''|'' @ toLowerCase (trim (to_String c))
   \<and> makeKey (JStr (toLowerCase s)) (JStr (toLowerCase t)) = makeKey (JStr s) (JStr t)
   \<and> makeKey (JStr (trim s)) (JStr (trim t)) = makeKey (JStr s) (JStr t)
   \<and> makeKey (JStr []) c = ''|'' @ toLowerCase (trim (to_String c))
   \<and> makeKey p (JStr []) = toLowerCase (trim (to_String p)) @ ''|''
   \<and> makeKey JUndefined c = ''undefined|'' @ toLowerCase (trim (to_String c))
   \<and> makeKey JNull c = ''null|'' @ toLowerCase (trim (to_String c))
   \<and> makeKey p JUndefined = toLowerCase (trim (to_String p)) @ ''|undefined''
   \<and> makeKey p JNull = toLowerCase (trim (to_String p)) @ ''|null''"
  by (simp add: makeKey_def trim_toLowerCase toLowerCase_idem trim_idem
      norm_undefined norm_null norm_empty)

theorem makeKey_normalises_witness:
  "makeKey (JStr '' Po-7 '') JUndefined = ''po-7|undefined''"
proof -
  have n: "toLowerCase (trim '' Po-7 '') = ''po-7''" by code_simp
  have "makeKey (JStr '' Po-7 '') JUndefined
          = toLowerCase (trim (to_String (JStr '' Po-7 ''))) @ ''|undefined''"
    using makeKey_normalises [of "JStr '' Po-7 ''" JUndefined "[]" "[]"] by blast
  then show ?thesis by (simp add: n)
qed

text \<open>
  As stated, C3 has a missing input normalise to the empty text. The key of an undefined
  purchase order number and item code \<open>A\<close> is \<open>undefined|a\<close>, not \<open>|a\<close>.
\<close>

theorem makeKey_missing_counterexample:
  "makeKey JUndefined (JStr ''A'') = ''undefined|a'' \<and> makeKey (JStr ''PO1'') JNull = ''po1|null''"
  by code_simp


section \<open>Load deduplication\<close>

lemma map_set_keys_image: "fst ` set (map_set m k v) = insert k (fst ` set m)"
proof (induction m)
  case Nil
  show ?case by simp
next
  case (Cons e m)
  obtain k' v' where e: "e = (k', v')" by (cases e)
  show ?case
  proof (cases "k' = k")
    case True
    then show ?thesis by (simp add: e)
  next
    case False
    then show ?thesis by (simp add: e Cons.IH insert_commute)
  qed
qed

lemma map_set_distinct: "distinct (map fst m) \<Longrightarrow> distinct (map fst (map_set m k v))"
  by (induction m) (auto simp: map_set_keys_image)

lemma map_of_map_set: "map_of (map_set m k v) = (map_of m)(k \<mapsto> v)"
  by (induction m) auto

lemma map_set_entries: "set (map_set m k v) \<subseteq> insert (k, v) (set m)"
  by (induction m) (auto split: if_splits)

lemma keyed_map_set: "keyed m \<Longrightarrow> keyed (map_set m (rec_key r) r)"
  using map_set_entries [of m "rec_key r" r]
  by (auto simp: keyed_def map_set_distinct list_all_iff)

lemma keyed_dedup_loop: "keyed m \<Longrightarrow> keyed (dedup_loop m arr)"
  by (induction arr arbitrary: m) (auto simp: keyed_map_set rec_key_def [symmetric])

lemma dedup_loop_keys: "fst ` set (dedup_loop m arr) = fst ` set m \<union> rec_key ` set arr"
proof (induction arr arbitrary: m)
  case Nil
  show ?case by simp
next
  case (Cons r arr)
  have "fst ` set (dedup_loop (map_set m (rec_key r) r) arr)
          = insert (rec_key r) (fst ` set m) \<union> rec_key ` set arr"
    by (simp only: Cons.IH map_set_keys_image)
  then show ?case by (simp add: rec_key_def [symmetric])
qed

lemma dedup_loop_entries: "set (dedup_loop m arr) \<subseteq> set m \<union> (\<lambda>r. (rec_key r, r)) ` set arr"
proof (induction arr arbitrary: m)
  case Nil
  show ?case by simp
next
  case (Cons r arr)
  have "set (dedup_loop (map_set m (rec_key r) r) arr)
          \<subseteq> set (map_set m (rec_key r) r) \<union> (\<lambda>r. (rec_key r, r)) ` set arr"
    by (rule Cons.IH)
  with map_set_entries [of m "rec_key r" r] show ?case
    by (auto simp: rec_key_def [symmetric])
qed

lemma map_of_dedup_loop:
  "map_of (dedup_loop m arr) k =
     (if k \<in> rec_key ` set arr then Some (last (filter (\<lambda>r. rec_key r = k) arr)) else map_of m k)"
proof (induction arr arbitrary: m)
  case Nil
  show ?case by simp
next
  case (Cons r arr)
  show ?case
    by (auto simp: Cons.IH map_of_map_set rec_key_def [symmetric] filter_empty_conv)
qed

lemma keyed_filter:
  "keyed m \<Longrightarrow> filter (\<lambda>r. rec_key r = k) (map snd m) = (case map_of m k of None \<Rightarrow> [] | Some r \<Rightarrow> [r])"
proof (induction m)
  case Nil
  show ?case by simp
next
  case (Cons e m)
  obtain k' r' where e: "e = (k', r')" by (cases e)
  from Cons.prems have km: "keyed m" and k': "k' = rec_key r'" and fresh: "k' \<notin> fst ` set m"
    by (auto simp: keyed_def e)
  show ?case
  proof (cases "k' = k")
    case True
    with fresh have "map_of m k = None" by (simp add: map_of_eq_None_iff)
    with Cons.IH [OF km] True k' show ?thesis by (simp add: e)
  next
    case False
    with Cons.IH [OF km] k' show ?thesis by (simp add: e)
  qed
qed

lemma keyed_Nil: "keyed []" by (simp add: keyed_def)


lemma dedup_last_by_key:
  "filter (\<lambda>r. rec_key r = k) (deduplicateVSIRRecords arr) =
     (if k \<in> rec_key ` set arr then [last (filter (\<lambda>r. rec_key r = k) arr)] else [])"
  using keyed_filter [OF keyed_dedup_loop [OF keyed_Nil], of k arr]
  by (simp add: deduplicateVSIRRecords_def map_values_def map_of_dedup_loop)


text \<open>
  The key text is made of the normalised pair, so equal pairs give equal keys; for
  purchase order numbers without the separator the converse holds too.
\<close>

lemma rec_key_norm_pair: "rec_key r = fst (norm_pair r) @ ''|'' @ snd (norm_pair r)"
  by (simp add: rec_key_def makeKey_def norm_pair_def)

lemma norm_pair_rec_key: "norm_pair r = norm_pair r' \<Longrightarrow> rec_key r = rec_key r'"
  by (simp add: rec_key_norm_pair)

lemma rec_key_norm_pair_iff:
  assumes "CHR ''|'' \<notin> set (to_String (poNo r))" "CHR ''|'' \<notin> set (to_String (poNo r'))"
  shows "rec_key r = rec_key r' \<longleftrightarrow> norm_pair r = norm_pair r'"
proof
  assume "rec_key r = rec_key r'"
  then have "makeKey (poNo r) (itemCode r) = makeKey (poNo r') (itemCode r')"
    by (simp add: rec_key_def)
  from makeKey_injective [OF assms this] show "norm_pair r = norm_pair r'"
    by (simp add: norm_pair_def)
next
  assume "norm_pair r = norm_pair r'"
  then show "rec_key r = rec_key r'" by (rule norm_pair_rec_key)
qed

lemma dedup_subset: "set (deduplicateVSIRRecords arr) \<subseteq> set arr"
  using dedup_loop_entries [of "[]" arr]
  by (auto simp: deduplicateVSIRRecords_def map_values_def)

lemma dedup_distinct_keys: "distinct (map rec_key (deduplicateVSIRRecords arr))"
proof -
  have k: "keyed (dedup_loop [] arr)" by (rule keyed_dedup_loop [OF keyed_Nil])
  then have "map rec_key (map snd (dedup_loop [] arr)) = map fst (dedup_loop [] arr)"
    by (auto simp: keyed_def list_all_iff)
  moreover from k have "distinct (map fst (dedup_loop [] arr))"
    by (simp add: keyed_def)
  ultimately show ?thesis
    by (simp only: deduplicateVSIRRecords_def map_values_def)
qed

lemma distinct_map_coarser:
  assumes "distinct (map f xs)" "\<And>x y. g x = g y \<Longrightarrow> f x = f y"
  shows "distinct (map g xs)"
  using assms(1)
proof (induction xs)
  case Nil
  show ?case by simp
next
  case (Cons x xs)
  then have "f x \<notin> f ` set xs" "distinct (map g xs)" by auto
  moreover have "g x \<notin> g ` set xs"
  proof
    assume "g x \<in> g ` set xs"
    then obtain y where y: "y \<in> set xs" "g x = g y" by auto
    from assms(2) [OF y(2)] have "f x = f y" .
    with y(1) have "f x \<in> f ` set xs" by (rule rev_image_eqI)
    with \<open>f x \<notin> f ` set xs\<close> show False ..
  qed
  ultimately show ?case by simp
qed

lemma dedup_distinct_pairs: "distinct (map norm_pair (deduplicateVSIRRecords arr))"
  by (rule distinct_map_coarser [OF dedup_distinct_keys norm_pair_rec_key])

text \<open>
  Claim C1, as amended. For every list of records in which no purchase order number
  holds the separator \<open>|\<close>, and for every normalised pair of purchase order number and
  item code, the records of that pair in the output of \<open>deduplicateVSIRRecords\<close> are
  exactly one, the last record of that pair in input order, when the input has a record
  of the pair, and none otherwise.
\<close>

theorem dedup_last_write_wins:
  assumes "\<forall>r \<in> set arr. CHR ''|'' \<notin> set (to_String (poNo r))"
  shows "filter (\<lambda>r. norm_pair r = k) (deduplicateVSIRRecords arr) =
           (if k \<in> norm_pair ` set arr then [last (filter (\<lambda>r. norm_pair r = k) arr)] else [])"
proof (cases "k \<in> norm_pair ` set arr")
  case False
  have "\<forall>r \<in> set (deduplicateVSIRRecords arr). norm_pair r \<noteq> k"
    using False dedup_subset [of arr] by auto
  then have "filter (\<lambda>r. norm_pair r = k) (deduplicateVSIRRecords arr) = []"
    by (simp add: filter_empty_conv)
  with False show ?thesis by simp
next
  case True
  then obtain r0 where r0: "r0 \<in> set arr" "norm_pair r0 = k" by auto
  have same: "norm_pair r = k \<longleftrightarrow> rec_key r = rec_key r0" if "r \<in> set arr" for r
    using rec_key_norm_pair_iff [of r r0] assms that r0 by auto
  have f1: "filter (\<lambda>r. norm_pair r = k) arr = filter (\<lambda>r. rec_key r = rec_key r0) arr"
    by (rule filter_cong [OF refl]) (simp add: same)
  have f2: "filter (\<lambda>r. norm_pair r = k) (deduplicateVSIRRecords arr)
              = filter (\<lambda>r. rec_key r = rec_key r0) (deduplicateVSIRRecords arr)"
    by (rule filter_cong [OF refl]) (use dedup_subset [of arr] same in blast)
  from r0(1) have "rec_key r0 \<in> rec_key ` set arr" by simp
  with dedup_last_by_key [of "rec_key r0" arr] f1 f2 True show ?thesis by simp
qed

theorem dedup_last_write_wins_witness:
  "filter (\<lambda>r. norm_pair r = (''po1'', ''a''))
     (deduplicateVSIRRecords
        [initialInput\<lparr>poNo := JStr ''PO1'', itemCode := JStr ''A'', qtyReceived := JNum 1\<rparr>,
         initialInput\<lparr>poNo := JStr ''po1'', itemCode := JStr ''a'', qtyReceived := JNum 5\<rparr>])
   = [initialInput\<lparr>poNo := JStr ''po1'', itemCode := JStr ''a'', qtyReceived := JNum 5\<rparr>]
   \<and> deduplicateVSIRRecords
        [initialInput\<lparr>poNo := JStr ''PO1'', itemCode := JStr ''A'', qtyReceived := JNum 1\<rparr>,
         initialInput\<lparr>poNo := JStr ''po1'', itemCode := JStr ''a'', qtyReceived := JNum 5\<rparr>]
   = [initialInput\<lparr>poNo := JStr ''po1'', itemCode := JStr ''a'', qtyReceived := JNum 5\<rparr>]"
proof -
  let ?r1 = "initialInput\<lparr>poNo := JStr ''PO1'', itemCode := JStr ''A'', qtyReceived := JNum 1\<rparr>"
  let ?r2 = "initialInput\<lparr>poNo := JStr ''po1'', itemCode := JStr ''a'', qtyReceived := JNum 5\<rparr>"
  have p1: "norm_pair ?r1 = (''po1'', ''a'')" by code_simp
  have p2: "norm_pair ?r2 = (''po1'', ''a'')" by code_simp
  have np: "\<forall>r \<in> set [?r1, ?r2]. CHR ''|'' \<notin> set (to_String (poNo r))" by simp
  have all: "deduplicateVSIRRecords [?r1, ?r2] = [?r2]" by code_simp
  from dedup_last_write_wins [OF np, of "(''po1'', ''a'')"] all show ?thesis
    by (simp add: p1 p2)
qed

text \<open>
  As stated, C1 holds the pair of every input record to survive. The purchase order
  number \<open>P|Q\<close> with item code \<open>r\<close> and the purchase order number \<open>p\<close>
  with item code \<open>q|r\<close> are two pairs with one key text: only the second record is
  in the output, and the pair of the first has no record there.
\<close>

theorem dedup_pipe_counterexample:
  "deduplicateVSIRRecords
     [initialInput\<lparr>poNo := JStr ''P|Q'', itemCode := JStr ''r''\<rparr>,
      initialInput\<lparr>poNo := JStr ''p'', itemCode := JStr ''q|r''\<rparr>]
   = [initialInput\<lparr>poNo := JStr ''p'', itemCode := JStr ''q|r''\<rparr>]
   \<and> norm_pair (initialInput\<lparr>poNo := JStr ''P|Q'', itemCode := JStr ''r''\<rparr>) = (''p|q'', ''r'')
   \<and> norm_pair (initialInput\<lparr>poNo := JStr ''p'', itemCode := JStr ''q|r''\<rparr>) = (''p'', ''q|r'')"
  by code_simp

text \<open>
  A record that is not in the output is followed in the input by a record of the same
  key text: the last record of a key text is the one that stays.
\<close>

lemma last_filter_index:
  "i < length xs \<Longrightarrow> P (xs ! i) \<Longrightarrow>
   \<exists>j. i \<le> j \<and> j < length xs \<and> P (xs ! j) \<and> last (filter P xs) = xs ! j"
proof (induction xs rule: rev_induct)
  case Nil
  then show ?case by simp
next
  case (snoc x xs)
  show ?case
  proof (cases "P x")
    case True
    with snoc.prems(1) show ?thesis
      by (intro exI [of _ "length xs"]) simp
  next
    case False
    with snoc.prems have i: "i < length xs"
      by (cases "i = length xs") auto
    with snoc.prems(2) have "P (xs ! i)" by (simp add: nth_append)
    from snoc.IH [OF i this] obtain j
      where j: "i \<le> j" "j < length xs" "P (xs ! j)" "last (filter P xs) = xs ! j" by blast
    with False show ?thesis
      by (intro exI [of _ j]) (simp add: nth_append)
  qed
qed

lemma dedup_dropped_has_later:
  assumes "i < length arr" "arr ! i \<notin> set (deduplicateVSIRRecords arr)"
  shows "\<exists>j. i < j \<and> j < length arr \<and> rec_key (arr ! j) = rec_key (arr ! i)"
proof -
  let ?k = "rec_key (arr ! i)"
  from assms(1) have "?k \<in> rec_key ` set arr" by simp
  with dedup_last_by_key [of ?k arr]
  have "filter (\<lambda>r. rec_key r = ?k) (deduplicateVSIRRecords arr) = [last (filter (\<lambda>r. rec_key r = ?k) arr)]"
    by simp
  then have "last (filter (\<lambda>r. rec_key r = ?k) arr) \<in> set (filter (\<lambda>r. rec_key r = ?k) (deduplicateVSIRRecords arr))"
    by simp
  then have surv: "last (filter (\<lambda>r. rec_key r = ?k) arr) \<in> set (deduplicateVSIRRecords arr)"
    by simp
  from last_filter_index [of i arr "\<lambda>r. rec_key r = ?k"] assms(1) obtain j
    where j: "i \<le> j" "j < length arr" "rec_key (arr ! j) = ?k"
      "last (filter (\<lambda>r. rec_key r = ?k) arr) = arr ! j" by auto
  with surv assms(2) have "j \<noteq> i" by auto
  with j show ?thesis by (intro exI [of _ j]) simp
qed

text \<open>
  Claim C9, as amended. For every input list the output of \<open>deduplicateVSIRRecords\<close>
  has pairwise distinct business keys, as normalised pairs and as key texts, and each of
  its records is a record of the input. An input record that is not in the output has a
  later input record with the same key text; when no purchase order number holds the
  separator \<open>|\<close>, that later record has the same normalised pair, so that only
  earlier duplicates are dropped.
\<close>

theorem dedup_distinct_subset:
  "distinct (map norm_pair (deduplicateVSIRRecords arr))
   \<and> distinct (map rec_key (deduplicateVSIRRecords arr))
   \<and> set (deduplicateVSIRRecords arr) \<subseteq> set arr
   \<and> (\<forall>i < length arr. arr ! i \<notin> set (deduplicateVSIRRecords arr) \<longrightarrow>
         (\<exists>j. i < j \<and> j < length arr \<and> rec_key (arr ! j) = rec_key (arr ! i)))
   \<and> ((\<forall>r \<in> set arr. CHR ''|'' \<notin> set (to_String (poNo r))) \<longrightarrow>
        (\<forall>i < length arr. arr ! i \<notin> set (deduplicateVSIRRecords arr) \<longrightarrow>
           (\<exists>j. i < j \<and> j < length arr \<and> norm_pair (arr ! j) = norm_pair (arr ! i))))"
proof (intro conjI allI impI)
  show "distinct (map norm_pair (deduplicateVSIRRecords arr))" by (rule dedup_distinct_pairs)
  show "distinct (map rec_key (deduplicateVSIRRecords arr))" by (rule dedup_distinct_keys)
  show "set (deduplicateVSIRRecords arr) \<subseteq> set arr" by (rule dedup_subset)
next
  fix i
  assume "i < length arr" "arr ! i \<notin> set (deduplicateVSIRRecords arr)"
  then show "\<exists>j. i < j \<and> j < length arr \<and> rec_key (arr ! j) = rec_key (arr ! i)"
    by (rule dedup_dropped_has_later)
next
  fix i
  assume np: "\<forall>r \<in> set arr. CHR ''|'' \<notin> set (to_String (poNo r))"
    and i: "i < length arr" "arr ! i \<notin> set (deduplicateVSIRRecords arr)"
  from dedup_dropped_has_later [OF i] obtain j
    where j: "i < j" "j < length arr" "rec_key (arr ! j) = rec_key (arr ! i)" by blast
  from np i(1) j(2) have "CHR ''|'' \<notin> set (to_String (poNo (arr ! j)))"
    "CHR ''|'' \<notin> set (to_String (poNo (arr ! i)))" by auto
  from rec_key_norm_pair_iff [OF this] j(3) have "norm_pair (arr ! j) = norm_pair (arr ! i)" by simp
  with j show "\<exists>j. i < j \<and> j < length arr \<and> norm_pair (arr ! j) = norm_pair (arr ! i)" by blast
qed

theorem dedup_distinct_subset_witness:
  "deduplicateVSIRRecords
        [initialInput\<lparr>poNo := JStr ''PO1'', itemCode := JStr ''A''\<rparr>,
         initialInput\<lparr>poNo := JStr ''PO2'', itemCode := JStr ''B''\<rparr>,
         initialInput\<lparr>poNo := JStr ''po1 '', itemCode := JStr ''a''\<rparr>]
   = [initialInput\<lparr>poNo := JStr ''po1 '', itemCode := JStr ''a''\<rparr>,
      initialInput\<lparr>poNo := JStr ''PO2'', itemCode := JStr ''B''\<rparr>]
   \<and> (\<exists>j. 0 < j \<and> j < 3 \<and>
         norm_pair ([initialInput\<lparr>poNo := JStr ''PO1'', itemCode := JStr ''A''\<rparr>,
                     initialInput\<lparr>poNo := JStr ''PO2'', itemCode := JStr ''B''\<rparr>,
                     initialInput\<lparr>poNo := JStr ''po1 '', itemCode := JStr ''a''\<rparr>] ! j)
         = norm_pair (initialInput\<lparr>poNo := JStr ''PO1'', itemCode := JStr ''A''\<rparr>))"
proof -
  let ?a = "initialInput\<lparr>poNo := JStr ''PO1'', itemCode := JStr ''A''\<rparr>"
  let ?b = "initialInput\<lparr>poNo := JStr ''PO2'', itemCode := JStr ''B''\<rparr>"
  let ?c = "initialInput\<lparr>poNo := JStr ''po1 '', itemCode := JStr ''a''\<rparr>"
  have all: "deduplicateVSIRRecords [?a, ?b, ?c] = [?c, ?b]" by code_simp
  have np: "\<forall>r \<in> set [?a, ?b, ?c]. CHR ''|'' \<notin> set (to_String (poNo r))" by simp
  have ne: "?a \<noteq> ?c" "?a \<noteq> ?b" by (simp_all add: initialInput_def)
  then have dropped: "[?a, ?b, ?c] ! 0 \<notin> set (deduplicateVSIRRecords [?a, ?b, ?c])"
    by (simp add: all)
  from dedup_distinct_subset [of "[?a, ?b, ?c]"] np
  have "\<forall>i < length [?a, ?b, ?c]. [?a, ?b, ?c] ! i \<notin> set (deduplicateVSIRRecords [?a, ?b, ?c]) \<longrightarrow>
          (\<exists>j. i < j \<and> j < length [?a, ?b, ?c] \<and> norm_pair ([?a, ?b, ?c] ! j) = norm_pair ([?a, ?b, ?c] ! i))"
    by blast
  with dropped have "\<exists>j. 0 < j \<and> j < length [?a, ?b, ?c] \<and> norm_pair ([?a, ?b, ?c] ! j) = norm_pair ([?a, ?b, ?c] ! 0)"
    by blast
  with all show ?thesis by (simp add: numeral_3_eq_3)
qed

text \<open>
  As stated, C9 has only earlier duplicates dropped. Of the purchase order number
  \<open>A|B\<close> with item code \<open>c\<close> and the purchase order number \<open>a\<close> with
  item code \<open>b|c\<close>, the first record is dropped although the second has another
  normalised pair.
\<close>

theorem dedup_dropped_counterexample:
  "deduplicateVSIRRecords
     [initialInput\<lparr>poNo := JStr ''A|B'', itemCode := JStr ''c''\<rparr>,
      initialInput\<lparr>poNo := JStr ''a'', itemCode := JStr ''b|c''\<rparr>]
   = [initialInput\<lparr>poNo := JStr ''a'', itemCode := JStr ''b|c''\<rparr>]
   \<and> norm_pair (initialInput\<lparr>poNo := JStr ''A|B'', itemCode := JStr ''c''\<rparr>)
     \<noteq> norm_pair (initialInput\<lparr>poNo := JStr ''a'', itemCode := JStr ''b|c''\<rparr>)"
  by code_simp

section \<open>The next vendor batch number\<close>

lemma opt_match_stops: "opt_match yy v = Inl TypeError \<longleftrightarrow> stops_scan v"
  by (cases v) (auto split: option.splits)

lemma opt_match_value:
  "\<not> stops_scan v \<Longrightarrow> opt_match yy v = Inr r \<Longrightarrow> batch_value yy v = map_option digits_value r"
  by (cases v) (auto split: option.splits if_splits)

lemma Max_insert_max:
  "finite S \<Longrightarrow> Max (insert (max m x) S) = Max (insert m (insert x S))"
  by (cases "S = {}") (simp_all add: max.assoc insert_commute)

text \<open>
  The scan as a maximum, when every value it parses is at most \<open>2^53\<close>: it reads
  the fields up to the first one whose call throws.
\<close>

lemma scan_batch_fst:
  assumes "\<forall>n \<in> set (List.map_filter (batch_value yy) (takeWhile (\<lambda>v. \<not> stops_scan v) vs)). n \<le> two53"
  shows "\<exists>e. scan_batch yy m vs =
           Some (Max (insert m (set (List.map_filter (batch_value yy) (takeWhile (\<lambda>v. \<not> stops_scan v) vs)))), e)
         \<and> (e = None \<longleftrightarrow> (\<forall>v \<in> set vs. \<not> stops_scan v))"
  using assms
proof (induction vs arbitrary: m)
  case Nil
  show ?case by (simp add: List.map_filter_simps)
next
  case (Cons v vs)
  show ?case
  proof (cases "opt_match yy v")
    case (Inl e)
    then have "stops_scan v" using opt_match_stops [of yy v] by (cases e) simp
    with Inl show ?thesis by (simp add: List.map_filter_simps)
  next
    case (Inr r)
    then have ns: "\<not> stops_scan v" using opt_match_stops [of yy v] by simp
    from opt_match_value [OF ns Inr] have bv: "batch_value yy v = map_option digits_value r" .
    show ?thesis
    proof (cases r)
      case None
      with bv ns Cons.prems
      have "\<forall>n \<in> set (List.map_filter (batch_value yy) (takeWhile (\<lambda>v. \<not> stops_scan v) vs)). n \<le> two53"
        by (simp add: List.map_filter_simps)
      from Cons.IH [OF this, of m] None Inr ns bv show ?thesis
        by (simp add: List.map_filter_simps)
    next
      case (Some ds)
      with bv ns Cons.prems
      have le: "digits_value ds \<le> two53"
        and rest: "\<forall>n \<in> set (List.map_filter (batch_value yy) (takeWhile (\<lambda>v. \<not> stops_scan v) vs)). n \<le> two53"
        by (simp_all add: List.map_filter_simps)
      from le have p: "parseInt ds = Some (digits_value ds)" by (simp add: parseInt_def)
      from Cons.IH [OF rest, of "max m (digits_value ds)"] Some Inr ns bv p show ?thesis
        by (simp add: List.map_filter_simps Max_insert_max)
    qed
  qed
qed

lemma scan_batch_append:
  "scan_batch yy m (xs @ ys) =
     (case scan_batch yy m xs of
        None \<Rightarrow> None
      | Some (m1, None) \<Rightarrow> scan_batch yy m1 ys
      | Some (m1, Some e) \<Rightarrow> Some (m1, Some e))"
  by (induction xs arbitrary: m) (auto split: sum.splits option.splits)

lemma generateVendorBatchNo_scan:
  "generateVendorBatchNo year st =
     map_option (\<lambda>r. yy_of_year year @ ''/V'' @ string_of_nat (plus_one (fst r)))
       (scan_batch (yy_of_year year) 0 (batch_fields st))"
  by (simp add: generateVendorBatchNo_def Let_def batch_fields_def scan_batch_append
      split: option.splits prod.splits)

lemma generateVendorBatchNo_scanned:
  assumes "\<forall>n \<in> set (List.map_filter (batch_value (yy_of_year year))
                      (takeWhile (\<lambda>v. \<not> stops_scan v) (batch_fields st))). n \<le> two53"
  shows "generateVendorBatchNo year st =
           Some (yy_of_year year @ ''/V'' @
             string_of_nat (plus_one (Max (insert 0 (set (List.map_filter (batch_value (yy_of_year year))
                       (takeWhile (\<lambda>v. \<not> stops_scan v) (batch_fields st))))))))"
  using scan_batch_fst [OF assms, of 0]
  by (auto simp: generateVendorBatchNo_scan)

text \<open>
  A well-formed batch number of another two-digit year has no match, and in the years
  1000 to 9999 the prefix is the last two digits of the year.
\<close>

lemma regex_match_digits:
  "length yy = 2 \<Longrightarrow> \<forall>c \<in> set s. is_digit c \<Longrightarrow> regex_match yy s = None"
proof (induction s)
  case Nil
  show ?case by simp
next
  case (Cons c s)
  have nd: "\<not> is_digit CHR ''/''" by (simp add: is_digit_def)
  obtain y1 y2 where yy: "yy = [y1, y2]"
    using Cons.prems(1) by (cases yy; cases "tl yy") auto
  have ih: "regex_match yy s = None" using Cons by simp
  have "take (length (yy @ ''/V'')) (c # s) \<noteq> yy @ ''/V''"
  proof
    assume t: "take (length (yy @ ''/V'')) (c # s) = yy @ ''/V''"
    then have "CHR ''/'' \<in> set (take (length (yy @ ''/V'')) (c # s))" by (simp add: yy)
    then have "CHR ''/'' \<in> set (c # s)" by (rule in_set_takeD)
    with Cons.prems(2) nd show False by blast
  qed
  then have "regex_match yy (c # s) = regex_match yy s"
    unfolding regex_match.simps Let_def by (rule if_not_P [OF de_Morgan_conj [THEN iffD2, OF disjI1]])
  with ih show ?case by simp
qed

lemma other_year_ignored:
  assumes "is_digit y1" "is_digit y2" "is_digit a" "is_digit b" "[a, b] \<noteq> [y1, y2]"
    and "\<forall>c \<in> set ds. is_digit c"
  shows "batch_value [y1, y2] (JStr ([a, b] @ ''/V'' @ ds)) = None"
proof -
  have n1: "\<not> is_digit CHR ''/''" and n2: "\<not> is_digit CHR ''V''" by (simp_all add: is_digit_def)
  from assms n1 n2 have ne: "y1 \<noteq> CHR ''/''" "y2 \<noteq> CHR ''/''" "y1 \<noteq> CHR ''V''" by auto
  have d: "regex_match [y1, y2] ds = None"
    by (rule regex_match_digits) (use assms(6) in simp_all)
  have "regex_match [y1, y2] (a # b # CHR ''/'' # CHR ''V'' # ds) = None"
    using assms(5) ne d by (auto simp: Let_def)
  then show ?thesis by simp
qed

lemma string_of_nat_step: "10 \<le> n \<Longrightarrow> string_of_nat n = string_of_nat (n div 10) @ [digit_char (n mod 10)]"
  by (subst string_of_nat.simps) simp

lemma string_of_nat_digit: "n < 10 \<Longrightarrow> string_of_nat n = [digit_char n]"
  by (subst string_of_nat.simps) simp

lemma yy_of_year_two_digits:
  assumes "1000 \<le> year" "year < 10000"
  shows "yy_of_year year = [digit_char (year div 10 mod 10), digit_char (year mod 10)]"
proof -
  have a: "10 \<le> year" "10 \<le> year div 10" "10 \<le> year div 10 div 10" "year div 10 div 10 div 10 < 10"
    using assms by auto
  show ?thesis
    unfolding yy_of_year_def
    by (simp add: string_of_nat_step [OF a(1)] string_of_nat_step [OF a(2)]
        string_of_nat_step [OF a(3)] string_of_nat_digit [OF a(4)])
qed

lemma digit_char_values:
  "digit_char 0 = CHR ''0''" "digit_char 1 = CHR ''1''" "digit_char 2 = CHR ''2''"
  "digit_char 3 = CHR ''3''" "digit_char 4 = CHR ''4''" "digit_char 5 = CHR ''5''"
  "digit_char 6 = CHR ''6''" "digit_char 7 = CHR ''7''" "digit_char 8 = CHR ''8''"
  "digit_char 9 = CHR ''9''" "digit_char (Suc 0) = CHR ''1''"
  by code_simp+

text \<open>
  Claim C4, as amended. For every pair of input collections in which no vendor batch
  number is an object with a \<open>match\<close> property of its own and every value captured
  by a match is below \<open>2^53\<close>, \<open>generateVendorBatchNo\<close> returns the year prefix,
  \<open>/V\<close> and the successor of a maximum. The maximum is taken over 0 and over the
  batch number fields of the records and of the department orders that are texts holding
  a match of the prefix, \<open>/V\<close> and digits, each with the value of the digits of its
  leftmost match. Fields that are missing, are no text or hold no match, as the batch
  numbers of other years, are passed over; without a match the result ends in
  \<open>/V1\<close>.
\<close>

theorem generateVendorBatchNo_next:
  assumes nostop: "\<forall>v \<in> set (batch_fields st). \<not> stops_scan v"
    and safe: "\<forall>v \<in> set (batch_fields st). \<forall>n. batch_value (yy_of_year year) v = Some n \<longrightarrow> n < two53"
  shows "generateVendorBatchNo year st =
           Some (yy_of_year year @ ''/V'' @
             string_of_nat (Max (insert 0 (set (List.map_filter (batch_value (yy_of_year year))
                                                 (batch_fields st)))) + 1))"
proof -
  let ?vals = "List.map_filter (batch_value (yy_of_year year)) (batch_fields st)"
  from nostop have tw: "takeWhile (\<lambda>v. \<not> stops_scan v) (batch_fields st) = batch_fields st"
    by (simp add: takeWhile_eq_all_conv)
  have lt: "\<forall>n \<in> set ?vals. n < two53"
    using safe by (auto simp: List.map_filter_def)
  then have "Max (insert 0 (set ?vals)) < two53"
    by (auto simp: two53_def)
  then have "plus_one (Max (insert 0 (set ?vals))) = Max (insert 0 (set ?vals)) + 1"
    by (simp add: plus_one_def)
  moreover from lt have "\<forall>n \<in> set ?vals. n \<le> two53" by auto
  ultimately show ?thesis
    using generateVendorBatchNo_scanned [of year st] by (simp add: tw)
qed

theorem generateVendorBatchNo_next_witness:
  "generateVendorBatchNo 2024
     (initialState\<lparr>records := [initialInput\<lparr>vendorBatchNo := JStr ''24/V1''\<rparr>,
                                initialInput\<lparr>vendorBatchNo := JStr ''23/V9''\<rparr>],
                   vendorDeptOrders := [[(''vendorBatchNo'', JStr ''24/V3'')], [(''oaNo'', JStr ''OA1'')]]\<rparr>)
   = Some ''24/V4''"
proof -
  let ?st = "initialState\<lparr>records := [initialInput\<lparr>vendorBatchNo := JStr ''24/V1''\<rparr>,
                                initialInput\<lparr>vendorBatchNo := JStr ''23/V9''\<rparr>],
                   vendorDeptOrders := [[(''vendorBatchNo'', JStr ''24/V3'')], [(''oaNo'', JStr ''OA1'')]]\<rparr>"
  have y: "yy_of_year 2024 = ''24''" by code_simp
  have f: "batch_fields ?st = [JStr ''24/V1'', JStr ''23/V9'', JStr ''24/V3'', JUndefined]"
    by (simp add: batch_fields_def initialState_def initialInput_def field_def)
  have b: "batch_value ''24'' (JStr ''24/V1'') = Some 1" "batch_value ''24'' (JStr ''23/V9'') = None"
    "batch_value ''24'' (JStr ''24/V3'') = Some 3" "batch_value ''24'' JUndefined = None"
    by code_simp+
  have nostop: "\<forall>v \<in> set (batch_fields ?st). \<not> stops_scan v" by (simp add: f)
  have safe: "\<forall>v \<in> set (batch_fields ?st). \<forall>n. batch_value (yy_of_year 2024) v = Some n \<longrightarrow> n < two53"
    by (simp add: f y b two53_def del: batch_value.simps)
  have s: "string_of_nat 4 = ''4''" by code_simp
  from generateVendorBatchNo_next [OF nostop safe] show ?thesis
    by (simp add: y f b s List.map_filter_simps del: batch_value.simps)
qed

text \<open>
  As stated, C4 has the successor of the maximum for every input. The numbers of the
  code are doubles: with the batch number \<open>24/V9007199254740992\<close>, whose value is
  \<open>2^53\<close>, the sum rounds back to \<open>2^53\<close> and the result is the same batch
  number again.
\<close>

theorem generateVendorBatchNo_rounding_counterexample:
  "generateVendorBatchNo 2024
     (initialState\<lparr>records := [initialInput\<lparr>vendorBatchNo := JStr ''24/V9007199254740992''\<rparr>]\<rparr>)
   = Some ''24/V9007199254740992''
   \<and> batch_value (yy_of_year 2024) (JStr ''24/V9007199254740992'') = Some 9007199254740992"
proof -
  let ?st = "initialState\<lparr>records := [initialInput\<lparr>vendorBatchNo := JStr ''24/V9007199254740992''\<rparr>]\<rparr>"
  have y: "yy_of_year 2024 = ''24''" by code_simp
  have r: "regex_match ''24'' ''24/V9007199254740992'' = Some ''9007199254740992''" by code_simp
  have d: "digits_value ''9007199254740992'' = 9007199254740992"
    by (simp add: digits_value_def)
  have s: "string_of_nat 9007199254740992 = ''9007199254740992''"
    by (simp add: string_of_nat_step string_of_nat_digit digit_char_values)
  have f: "batch_fields ?st = [JStr ''24/V9007199254740992'']"
    by (simp add: batch_fields_def initialState_def)
  have p: "plus_one 9007199254740992 = 9007199254740992" by (simp add: plus_one_def two53_def)
  have bv: "batch_value ''24'' (JStr ''24/V9007199254740992'') = Some 9007199254740992"
    by (simp only: batch_value.simps r d option.map)
  have v: "List.map_filter (batch_value ''24'') (takeWhile (\<lambda>v. \<not> stops_scan v) (batch_fields ?st))
             = [9007199254740992]"
    by (simp add: f bv List.map_filter_simps del: batch_value.simps)
  have "generateVendorBatchNo 2024 ?st = Some ''24/V9007199254740992''"
    using generateVendorBatchNo_scanned [of 2024 ?st]
    by (simp add: y v p s two53_def)
  then show ?thesis by (simp add: y bv del: batch_value.simps)
qed

text \<open>
  What the scan does at an object with a \<open>match\<close> property: the call throws, the
  handler logs it, and the fields after it are not read.
\<close>

lemma generateVendorBatchNo_scan_stops:
  "generateVendorBatchNo 2024
     (initialState\<lparr>vendorDeptOrders := [[(''vendorBatchNo'', JObj [(''match'', JNum 1)])],
                                         [(''vendorBatchNo'', JStr ''24/V3'')]]\<rparr>)
   = Some ''24/V1''"
proof -
  let ?st = "initialState\<lparr>vendorDeptOrders := [[(''vendorBatchNo'', JObj [(''match'', JNum 1)])],
                                         [(''vendorBatchNo'', JStr ''24/V3'')]]\<rparr>"
  have y: "yy_of_year 2024 = ''24''" by code_simp
  have f: "batch_fields ?st = [JObj [(''match'', JNum 1)], JStr ''24/V3'']"
    by (simp add: batch_fields_def initialState_def field_def)
  have v: "List.map_filter (batch_value ''24'') (takeWhile (\<lambda>v. \<not> stops_scan v) (batch_fields ?st)) = []"
    by (simp add: f List.map_filter_simps)
  have s: "string_of_nat (Suc 0) = ''1''" by code_simp
  show ?thesis
    using generateVendorBatchNo_scanned [of 2024 ?st]
    by (simp add: y v s plus_one_def two53_def)
qed

section \<open>Auto-import\<close>

lemma rec_key_newRecord: "rec_key (newRecord f po oa b item code) = makeKey po code"
  by (simp add: rec_key_def newRecord_def)

lemma import_items_fresh:
  "import_items uid cc po oa b ids n items = (es, n', err) \<Longrightarrow>
   AddVSIRRecord u r \<in> set es \<Longrightarrow> rec_key r \<notin> cc"
proof (induction items arbitrary: n es n' err)
  case Nil
  then show ?case by simp
next
  case (Cons item items)
  show ?case
  proof (cases "nullish item")
    case True
    with Cons.prems show ?thesis by simp
  next
    case False
    let ?code = "js_or (get_prop item ''itemCode'') (JStr [])"
    show ?thesis
    proof (cases "makeKey po ?code \<in> cc")
      case True
      with False Cons.prems have "import_items uid cc po oa b ids n items = (es, n', err)"
        by (simp add: Let_def)
      from Cons.IH [OF this Cons.prems(2)] show ?thesis .
    next
      case k: False
      obtain es1 n1 err1 where rest: "import_items uid cc po oa b ids (Suc n) items = (es1, n1, err1)"
        by (cases "import_items uid cc po oa b ids (Suc n) items") auto
      with False k Cons.prems(1)
      have es: "es = AddVSIRRecord uid (newRecord (ids n) po oa b item ?code) # es1"
        by (simp add: Let_def)
      show ?thesis
      proof (cases "AddVSIRRecord u r \<in> set es1")
        case True
        from Cons.IH [OF rest True] show ?thesis .
      next
        case False
        with es Cons.prems(2) have "r = newRecord (ids n) po oa b item ?code" by simp
        with k show ?thesis by (simp add: rec_key_newRecord)
      qed
    qed
  qed
qed

lemma import_orders_fresh:
  "import_orders uid cc depts ids n src = (es, err) \<Longrightarrow>
   AddVSIRRecord u r \<in> set es \<Longrightarrow> rec_key r \<notin> cc"
proof (induction src arbitrary: n es err)
  case Nil
  then show ?case by simp
next
  case (Cons order src)
  show ?case
  proof (cases "\<not> truthy (getOrderPoNo order) \<or> getOrderItems order = []")
    case True
    with Cons.prems(1) have "import_orders uid cc depts ids n src = (es, err)"
      by (auto simp: Let_def split: if_splits)
    from Cons.IH [OF this Cons.prems(2)] show ?thesis .
  next
    case False
    let ?po = "getOrderPoNo order"
    let ?m = "find_po ''materialPurchasePoNo'' depts ?po"
    let ?oa = "js_or (match_field ?m ''oaNo'') (JStr [])"
    let ?b = "js_or (match_field ?m ''batchNo'') (JStr [])"
    obtain es1 n1 err1
      where it: "import_items uid cc ?po ?oa ?b ids n (getOrderItems order) = (es1, n1, err1)"
      by (cases "import_items uid cc ?po ?oa ?b ids n (getOrderItems order)") auto
    note first = import_items_fresh [OF it, of u r]
    show ?thesis
    proof (cases err1)
      case (Some e)
      with False it Cons.prems(1) have "es = es1" by (simp add: Let_def)
      with first Cons.prems(2) show ?thesis by simp
    next
      case None
      obtain es2 err2 where rest: "import_orders uid cc depts ids n1 src = (es2, err2)"
        by (cases "import_orders uid cc depts ids n1 src") auto
      with None False it Cons.prems(1) have "es = es1 @ es2" by (simp add: Let_def)
      with Cons.prems(2) have "AddVSIRRecord u r \<in> set es1 \<or> AddVSIRRecord u r \<in> set es2"
        by simp
      with first Cons.IH [OF rest] show ?thesis by blast
    qed
  qed
qed

lemma update_dedup_cache_keys:
  "existingCombinations (update_dedup_cache st) = rec_key ` set (records (update_dedup_cache st))"
  by (simp add: update_dedup_cache_def rec_key_def [abs_def])

text \<open>
  What a run keeps to: when the deduplication cache holds the keys of the current
  records, as the cache rule leaves it, no record a run creates has the business key of
  a record that was there when the run began.
\<close>

lemma runImport_skips_existing:
  "existingCombinations st = rec_key ` set (records st) \<Longrightarrow>
   AddVSIRRecord u r \<in> set (fst (runImport st src ids)) \<Longrightarrow>
   rec_key r \<notin> rec_key ` set (records st)"
proof -
  assume cache: "existingCombinations st = rec_key ` set (records st)"
    and add: "AddVSIRRecord u r \<in> set (fst (runImport st src ids))"
  obtain es err where run: "runImport st src ids = (es, err)"
    by (cases "runImport st src ids") auto
  with add have mem: "AddVSIRRecord u r \<in> set es" by simp
  show ?thesis
  proof (cases "signed_in st")
    case None
    with run mem show ?thesis by (simp add: runImport_def)
  next
    case (Some uid)
    let ?src = "case src of Some s \<Rightarrow> s
                | None \<Rightarrow> if purchaseOrders st \<noteq> [] then purchaseOrders st else purchaseData st"
    show ?thesis
    proof (cases "?src = []")
      case True
      with Some run mem show ?thesis by (simp add: runImport_def Let_def)
    next
      case False
      with Some run
      have "import_orders uid (existingCombinations st) (vendorDeptOrders st) ids 0 ?src = (es, err)"
        by (simp add: runImport_def Let_def)
      from import_orders_fresh [OF this mem] cache show ?thesis by simp
    qed
  qed
qed

lemma runImport_skips_existing_example:
  "fst (runImport
         (initialState\<lparr>userUid := Some ''u1'',
            records := [initialInput\<lparr>id' := JStr ''r1'', poNo := JStr ''PO1'', itemCode := JStr ''A''\<rparr>],
            purchaseOrders := [JObj [(''poNo'', JStr ''po1''),
                                     (''items'', JArr [JObj [(''itemCode'', JStr ''a'')],
                                                       JObj [(''itemCode'', JStr ''B'')]])]],
            existingCombinations := {''po1|a''}\<rparr>)
         None string_of_nat)
   = [AddVSIRRecord ''u1'' (initialInput\<lparr>id' := JStr ''0'', poNo := JStr ''po1'', itemCode := JStr ''B''\<rparr>)]
   \<and> rec_key (initialInput\<lparr>id' := JStr ''0'', poNo := JStr ''po1'', itemCode := JStr ''B''\<rparr>)
       \<notin> rec_key ` {initialInput\<lparr>id' := JStr ''r1'', poNo := JStr ''PO1'', itemCode := JStr ''A''\<rparr>}"
proof -
  let ?r1 = "initialInput\<lparr>id' := JStr ''r1'', poNo := JStr ''PO1'', itemCode := JStr ''A''\<rparr>"
  let ?new = "initialInput\<lparr>id' := JStr ''0'', poNo := JStr ''po1'', itemCode := JStr ''B''\<rparr>"
  let ?st = "initialState\<lparr>userUid := Some ''u1'', records := [?r1],
            purchaseOrders := [JObj [(''poNo'', JStr ''po1''),
                                     (''items'', JArr [JObj [(''itemCode'', JStr ''a'')],
                                                       JObj [(''itemCode'', JStr ''B'')]])]],
            existingCombinations := {''po1|a''}\<rparr>"
  have k: "rec_key ?r1 = ''po1|a''" by code_simp
  have run: "fst (runImport ?st None string_of_nat) = [AddVSIRRecord ''u1'' ?new]" by code_simp
  have cache: "existingCombinations ?st = rec_key ` set (records ?st)" by (simp add: k)
  have "AddVSIRRecord ''u1'' ?new \<in> set (fst (runImport ?st None string_of_nat))"
    by (simp only: run list.set insertI1)
  from runImport_skips_existing [OF cache this] run show ?thesis by simp
qed

text \<open>
  Claim C2. A run is to skip the second occurrence of a pair it has already created a
  record for. The code does not: it tests each key against the set it read when the run
  began and never adds the key of a record it creates. With a signed-in user, no records
  and one order that lists item code \<open>A\<close> twice, the run calls the store twice, for
  two records of one business key.
\<close>

theorem runImport_repeat_not_skipped:
  "fst (runImport
         (initialState\<lparr>userUid := Some ''u1'',
            purchaseOrders := [JObj [(''poNo'', JStr ''PO1''),
                                     (''items'', JArr [JObj [(''itemCode'', JStr ''A'')],
                                                       JObj [(''itemCode'', JStr ''A'')]])]]\<rparr>)
         None string_of_nat)
   = [AddVSIRRecord ''u1'' (initialInput\<lparr>id' := JStr ''0'', poNo := JStr ''PO1'', itemCode := JStr ''A''\<rparr>),
      AddVSIRRecord ''u1'' (initialInput\<lparr>id' := JStr ''1'', poNo := JStr ''PO1'', itemCode := JStr ''A''\<rparr>)]
   \<and> rec_key (initialInput\<lparr>id' := JStr ''0'', poNo := JStr ''PO1'', itemCode := JStr ''A''\<rparr>)
     = rec_key (initialInput\<lparr>id' := JStr ''1'', poNo := JStr ''PO1'', itemCode := JStr ''A''\<rparr>)"
  by code_simp

section \<open>Submitting the form\<close>

lemma blank_opt_trim: "blank v \<Longrightarrow> \<exists>t. opt_trim v = Inr t \<and> \<not> truthy t"
  by (cases v) auto

lemma find_filter: "find P xs = (case filter P xs of [] \<Rightarrow> None | x # _ \<Rightarrow> Some x)"
  by (induction xs) auto

lemma batch_of_match_None:
  assumes "\<forall>d \<in> set docs. strict_eq (field d ''materialPurchasePoNo'') po \<longrightarrow> \<not> truthy (field d ''vendorBatchNo'')"
  shows "batch_of_match docs po = None"
proof (cases "find (\<lambda>d. strict_eq (field d ''materialPurchasePoNo'') po) docs")
  case None
  then show ?thesis by (simp add: batch_of_match_def)
next
  case (Some m)
  then have "m \<in> set docs" "strict_eq (field m ''materialPurchasePoNo'') po"
    by (auto simp: find_Some_iff)
  with assms have "\<not> truthy (field m ''vendorBatchNo'')" by blast
  with Some show ?thesis by (simp add: batch_of_match_def)
qed

text \<open>
  Claim C5, as amended. When the form's invoice/challan number is a text that is not
  blank, its vendor batch number is blank, its purchase order number is not empty, and no
  department order and no vendor issue of that purchase order has a vendor batch number,
  submit shows a message to the operator and calls the store neither to add nor to
  update: the message that the batch number could not be determined, or, without a
  signed-in user, that a login is needed.
\<close>

theorem handleSubmit_unresolved_batch:
  assumes invoice: "invoiceDcNo (itemInput st) = JStr dc" "trim dc \<noteq> []"
    and batch: "blank (vendorBatchNo (itemInput st))"
    and po: "truthy (poNo (itemInput st))"
    and nores: "\<forall>d \<in> set (vendorDeptOrders st) \<union> set (vendorIssues st).
                  strict_eq (field d ''materialPurchasePoNo'') (poNo (itemInput st))
                    \<longrightarrow> \<not> truthy (field d ''vendorBatchNo'')"
  shows "handleSubmit st store_ok =
           Inr [Alert (if signed_in st = None then ''You must be logged in.''
                       else ''Vendor Batch No could not be determined from VendorDept. Please save a VendorDept order for this PO first.'')]"
proof -
  have "batch_of_match (vendorDeptOrders st) (poNo (itemInput st)) = None"
    "batch_of_match (vendorIssues st) (poNo (itemInput st)) = None"
    using nores by (auto intro!: batch_of_match_None)
  then have "getVendorBatchNoForPO st (poNo (itemInput st)) = JStr []"
    by (simp add: getVendorBatchNoForPO_def)
  moreover from batch obtain t where "opt_trim (vendorBatchNo (itemInput st)) = Inr t" "\<not> truthy t"
    using blank_opt_trim by blast
  ultimately show ?thesis
    using invoice po by (simp add: handleSubmit_def Let_def split: option.splits)
qed

theorem handleSubmit_unresolved_batch_witness:
  "handleSubmit
     (initialState\<lparr>userUid := Some ''u1'',
        vendorDeptOrders := [[(''materialPurchasePoNo'', JStr ''PO9''), (''oaNo'', JStr ''OA1'')],
                             [(''materialPurchasePoNo'', JStr ''PO8''), (''vendorBatchNo'', JStr ''24/V2'')]],
        itemInput := initialInput\<lparr>poNo := JStr ''PO9'', itemCode := JStr ''X'', invoiceDcNo := JStr ''DC1''\<rparr>\<rparr>)
     True
   = Inr [Alert ''Vendor Batch No could not be determined from VendorDept. Please save a VendorDept order for this PO first.'']"
proof -
  let ?st = "initialState\<lparr>userUid := Some ''u1'',
        vendorDeptOrders := [[(''materialPurchasePoNo'', JStr ''PO9''), (''oaNo'', JStr ''OA1'')],
                             [(''materialPurchasePoNo'', JStr ''PO8''), (''vendorBatchNo'', JStr ''24/V2'')]],
        itemInput := initialInput\<lparr>poNo := JStr ''PO9'', itemCode := JStr ''X'', invoiceDcNo := JStr ''DC1''\<rparr>\<rparr>"
  have 1: "invoiceDcNo (itemInput ?st) = JStr ''DC1''" by simp
  have 2: "trim ''DC1'' \<noteq> []" by code_simp
  have t: "trim [] = []" by code_simp
  have 3: "blank (vendorBatchNo (itemInput ?st))" by (simp add: initialInput_def t)
  have 4: "truthy (poNo (itemInput ?st))" by simp
  have 5: "\<forall>d \<in> set (vendorDeptOrders ?st) \<union> set (vendorIssues ?st).
             strict_eq (field d ''materialPurchasePoNo'') (poNo (itemInput ?st))
               \<longrightarrow> \<not> truthy (field d ''vendorBatchNo'')"
    by (simp add: initialState_def field_def)
  have 6: "signed_in ?st = Some ''u1''" by (simp add: signed_in_def)
  from handleSubmit_unresolved_batch [OF 1 2 3 4 5, of True] 6 show ?thesis by simp
qed

text \<open>
  As stated, C5 does not ask for a purchase order number. The handler looks a batch
  number up only when the form has one: a form with invoice number \<open>DC1\<close>, no vendor
  batch number and no purchase order number is added to the store.
\<close>

theorem handleSubmit_no_po_counterexample:
  "handleSubmit
     (initialState\<lparr>userUid := Some ''u1'',
        itemInput := initialInput\<lparr>itemCode := JStr ''X'', invoiceDcNo := JStr ''DC1''\<rparr>\<rparr>)
     True
   = Inr [AddVSIRRecord ''u1'' (initialInput\<lparr>itemCode := JStr ''X'', invoiceDcNo := JStr ''DC1''\<rparr>)]
   \<and> vendorBatchNo (initialInput\<lparr>itemCode := JStr ''X'', invoiceDcNo := JStr ''DC1''\<rparr>) = JStr []
   \<and> poNo (initialInput\<lparr>itemCode := JStr ''X'', invoiceDcNo := JStr ''DC1''\<rparr>) = JStr []"
  by code_simp

section \<open>Auto-delete\<close>

lemma concat_delete_one:
  "concat (map (delete_one uid) rs) =
     map (\<lambda>r. DeleteVSIRRecord uid (to_String (id' r))) (filter (\<lambda>r. truthy (id' r)) rs)"
  by (induction rs) (auto simp: delete_one_def)

text \<open>
  The callbacks that set the user and the records keep the records empty while no user
  is signed in, from the state the component mounts with; so does the auto-fill rule.
\<close>

lemma signed_out_cleared_initial: "signed_out_cleared initialState"
  by (simp add: signed_out_cleared_def initialState_def)

lemma signed_out_cleared_auth: "signed_out_cleared (on_auth_state_changed st uid)"
  by (auto simp: signed_out_cleared_def on_auth_state_changed_def Let_def signed_in_def
      split: option.splits if_splits)

lemma signed_out_cleared_snapshot:
  "signed_out_cleared st \<Longrightarrow> signed_out_cleared (on_vsir_snapshot st docs)"
  by (auto simp: signed_out_cleared_def on_vsir_snapshot_def signed_in_def
      split: option.splits if_splits)

lemma signed_out_cleared_fill:
  "signed_out_cleared st \<Longrightarrow> signed_out_cleared (fst (auto_fill_indent st))"
  by (auto simp: signed_out_cleared_def auto_fill_indent_def Let_def signed_in_def
      split: option.splits if_splits)

text \<open>
  Claim C6. In a state of the component, where records are present only under a
  signed-in user: when the purchase data are empty, there are records and the toggle is
  on, the rule after the operator's confirmation issues exactly one delete for each
  record id, in the order of the records and under the text of the id, and nothing else;
  when the operator declines it issues nothing. A record without an id has no delete.
\<close>

theorem auto_delete_all:
  assumes "signed_out_cleared st" "autoDeleteEnabled st" "purchaseData st = []" "records st \<noteq> []"
  shows "\<exists>uid. signed_in st = Some uid
           \<and> auto_delete st True =
                 map (\<lambda>r. DeleteVSIRRecord uid (to_String (id' r)))
                   (filter (\<lambda>r. truthy (id' r)) (records st))
           \<and> auto_delete st False = []"
proof -
  from assms(1,4) obtain uid where "signed_in st = Some uid"
    by (auto simp: signed_out_cleared_def)
  with assms(2,3,4) show ?thesis
    by (simp add: auto_delete_def concat_delete_one)
qed

theorem auto_delete_all_witness:
  "auto_delete
     (on_vsir_snapshot (on_auth_state_changed (initialState\<lparr>autoDeleteEnabled := True\<rparr>) (Some ''u1''))
        [initialInput\<lparr>id' := JStr ''r1'', poNo := JStr ''PO1''\<rparr>,
         initialInput\<lparr>id' := JStr ''r2'', poNo := JStr ''PO2''\<rparr>])
     True
   = [DeleteVSIRRecord ''u1'' ''r1'', DeleteVSIRRecord ''u1'' ''r2'']
   \<and> auto_delete
     (on_vsir_snapshot (on_auth_state_changed (initialState\<lparr>autoDeleteEnabled := True\<rparr>) (Some ''u1''))
        [initialInput\<lparr>id' := JStr ''r1'', poNo := JStr ''PO1''\<rparr>,
         initialInput\<lparr>id' := JStr ''r2'', poNo := JStr ''PO2''\<rparr>])
     False
   = []"
proof -
  let ?docs = "[initialInput\<lparr>id' := JStr ''r1'', poNo := JStr ''PO1''\<rparr>,
                initialInput\<lparr>id' := JStr ''r2'', poNo := JStr ''PO2''\<rparr>]"
  let ?st = "on_vsir_snapshot (on_auth_state_changed (initialState\<lparr>autoDeleteEnabled := True\<rparr>) (Some ''u1'')) ?docs"
  have 1: "signed_out_cleared ?st"
    by (rule signed_out_cleared_snapshot [OF signed_out_cleared_auth])
  have u: "signed_in ?st = Some ''u1''" by code_simp
  have 2: "autoDeleteEnabled ?st" by code_simp
  have 3: "purchaseData ?st = []" by code_simp
  have r: "records ?st = ?docs" by code_simp
  then have 4: "records ?st \<noteq> []" by simp
  from auto_delete_all [OF 1 2 3 4] u r show ?thesis by simp
qed

section \<open>Auto-fill of the indent number\<close>

lemma concat_update_one:
  "concat (map (\<lambda>x. update_one uid (f x)) rs) =
     map (\<lambda>r. UpdateVSIRRecord uid (to_String (id' r)) r) (filter (\<lambda>r. truthy (id' r)) (map f rs))"
  by (induction rs) (auto simp: update_one_def)

lemma fill_indent_flag: "fst (fill_indent psir r) \<longleftrightarrow> snd (fill_indent psir r) \<noteq> r"
proof -
  have "r\<lparr>indentNo := m\<rparr> \<noteq> r" if "truthy m" "\<not> truthy (indentNo r)" for m
  proof
    assume "r\<lparr>indentNo := m\<rparr> = r"
    then have "indentNo (r\<lparr>indentNo := m\<rparr>) = indentNo r" by simp
    with that show False by simp
  qed
  then show ?thesis by (auto simp: fill_indent_def Let_def)
qed

lemma fill_indent_any:
  "list_ex fst (map (fill_indent psir) rs) \<longleftrightarrow> map (\<lambda>r. snd (fill_indent psir r)) rs \<noteq> rs"
  by (induction rs) (auto simp: fill_indent_flag)

text \<open>
  Claim C7, as amended. When the rule fires (a user signed in, prior receipts and records
  both present), it maps each record to itself or to the record with the indent number
  of its prior receipt. When no record changes, the state stays and nothing is written.
  When at least one changes, the new records replace the old and one update is issued for
  every record that has an id, changed or not, each carrying the record as it is after
  the rule: a record the rule did not change is written back with the content it had.
\<close>

theorem auto_fill_indent_writes:
  assumes "signed_in st = Some uid" "psirData st \<noteq> []" "records st \<noteq> []"
  shows "auto_fill_indent st =
           (let updatedRecords = map (\<lambda>r. snd (fill_indent (psirData st) r)) (records st)
            in if updatedRecords = records st then (st, [])
               else (st\<lparr>records := updatedRecords\<rparr>,
                     map (\<lambda>r. UpdateVSIRRecord uid (to_String (id' r)) r)
                       (filter (\<lambda>r. truthy (id' r)) updatedRecords)))"
  using assms fill_indent_any [of "psirData st" "records st"]
  by (simp add: auto_fill_indent_def Let_def concat_update_one comp_def)

theorem auto_fill_indent_writes_witness:
  "auto_fill_indent
     (initialState\<lparr>userUid := Some ''u1'',
        psirData := [[(''poNo'', JStr ''PO1''), (''indentNo'', JStr ''I1'')]],
        records := [initialInput\<lparr>id' := JStr ''r1'', poNo := JStr ''PO1''\<rparr>,
                    initialInput\<lparr>id' := JStr ''r2'', poNo := JStr ''PO2'', indentNo := JStr ''I9''\<rparr>]\<rparr>)
   = (initialState\<lparr>userUid := Some ''u1'',
        psirData := [[(''poNo'', JStr ''PO1''), (''indentNo'', JStr ''I1'')]],
        records := [initialInput\<lparr>id' := JStr ''r1'', poNo := JStr ''PO1'', indentNo := JStr ''I1''\<rparr>,
                    initialInput\<lparr>id' := JStr ''r2'', poNo := JStr ''PO2'', indentNo := JStr ''I9''\<rparr>]\<rparr>,
      [UpdateVSIRRecord ''u1'' ''r1'' (initialInput\<lparr>id' := JStr ''r1'', poNo := JStr ''PO1'', indentNo := JStr ''I1''\<rparr>),
       UpdateVSIRRecord ''u1'' ''r2'' (initialInput\<lparr>id' := JStr ''r2'', poNo := JStr ''PO2'', indentNo := JStr ''I9''\<rparr>)])"
proof -
  let ?r1 = "initialInput\<lparr>id' := JStr ''r1'', poNo := JStr ''PO1''\<rparr>"
  let ?r2 = "initialInput\<lparr>id' := JStr ''r2'', poNo := JStr ''PO2'', indentNo := JStr ''I9''\<rparr>"
  let ?psir = "[[(''poNo'', JStr ''PO1''), (''indentNo'', JStr ''I1'')]]"
  let ?st = "initialState\<lparr>userUid := Some ''u1'', psirData := ?psir, records := [?r1, ?r2]\<rparr>"
  have 1: "signed_in ?st = Some ''u1''" by (simp add: signed_in_def)
  have 2: "psirData ?st \<noteq> []" by simp
  have 3: "records ?st \<noteq> []" by simp
  have f1: "snd (fill_indent ?psir ?r1) = ?r1\<lparr>indentNo := JStr ''I1''\<rparr>" by code_simp
  have f2: "snd (fill_indent ?psir ?r2) = ?r2" by code_simp
  have ne: "?r1\<lparr>indentNo := JStr ''I1''\<rparr> \<noteq> ?r1" by (simp add: initialInput_def)
  from auto_fill_indent_writes [OF 1 2 3] show ?thesis
    by (simp add: f1 f2 ne Let_def)
qed

text \<open>
  As stated, C7 has writes for changed records only. With two records of which the
  rule fills the first and leaves the second as it is, it issues an update for both.
\<close>

theorem auto_fill_indent_unchanged_counterexample:
  "snd (auto_fill_indent
     (initialState\<lparr>userUid := Some ''u1'',
        psirData := [[(''poNo'', JStr ''PO1''), (''indentNo'', JStr ''I1'')]],
        records := [initialInput\<lparr>id' := JStr ''r1'', poNo := JStr ''PO1''\<rparr>,
                    initialInput\<lparr>id' := JStr ''r2'', poNo := JStr ''PO2'', indentNo := JStr ''I9''\<rparr>]\<rparr>))
   = [UpdateVSIRRecord ''u1'' ''r1'' (initialInput\<lparr>id' := JStr ''r1'', poNo := JStr ''PO1'', indentNo := JStr ''I1''\<rparr>),
      UpdateVSIRRecord ''u1'' ''r2'' (initialInput\<lparr>id' := JStr ''r2'', poNo := JStr ''PO2'', indentNo := JStr ''I9''\<rparr>)]
   \<and> snd (fill_indent [[(''poNo'', JStr ''PO1''), (''indentNo'', JStr ''I1'')]]
            (initialInput\<lparr>id' := JStr ''r2'', poNo := JStr ''PO2'', indentNo := JStr ''I9''\<rparr>))
     = initialInput\<lparr>id' := JStr ''r2'', poNo := JStr ''PO2'', indentNo := JStr ''I9''\<rparr>"
  by code_simp

section \<open>The indent number of the form\<close>

text \<open>
  Claim C8, as amended. When the form has a purchase order number and the first prior
  receipt whose purchase order number is the same text after trimming has an indent
  number, the rule sets the form's indent number to it and changes nothing else,
  whatever the form's indent number was before, empty or not.
\<close>

theorem form_fill_indent_overwrites:
  assumes "truthy (poNo (itemInput st))"
    and "filter (\<lambda>p. trim (to_String (field p ''poNo'')) = trim (to_String (poNo (itemInput st))))
           (psirData st) = m # ms"
    and "truthy (field m ''indentNo'')"
  shows "form_fill_indent st = st\<lparr>itemInput := (itemInput st)\<lparr>indentNo := field m ''indentNo''\<rparr>\<rparr>"
proof -
  from assms(2) have ne: "psirData st \<noteq> []" by auto
  from assms(2) have "find_po ''poNo'' (psirData st) (poNo (itemInput st)) = Some m"
    by (simp add: find_po_def find_filter)
  with assms(1,3) ne show ?thesis
    by (simp add: form_fill_indent_def Let_def match_field_def)
qed

theorem form_fill_indent_overwrites_witness:
  "form_fill_indent
     (initialState\<lparr>psirData := [[(''poNo'', JStr ''PO7''), (''indentNo'', JStr ''I0'')],
                                 [(''poNo'', JStr '' PO1''), (''indentNo'', JStr ''NEW'')]],
        itemInput := initialInput\<lparr>poNo := JStr ''PO1'', indentNo := JStr ''OLD''\<rparr>\<rparr>)
   = initialState\<lparr>psirData := [[(''poNo'', JStr ''PO7''), (''indentNo'', JStr ''I0'')],
                                 [(''poNo'', JStr '' PO1''), (''indentNo'', JStr ''NEW'')]],
        itemInput := initialInput\<lparr>poNo := JStr ''PO1'', indentNo := JStr ''NEW''\<rparr>\<rparr>"
proof -
  let ?psir = "[[(''poNo'', JStr ''PO7''), (''indentNo'', JStr ''I0'')],
                [(''poNo'', JStr '' PO1''), (''indentNo'', JStr ''NEW'')]]"
  let ?st = "initialState\<lparr>psirData := ?psir,
        itemInput := initialInput\<lparr>poNo := JStr ''PO1'', indentNo := JStr ''OLD''\<rparr>\<rparr>"
  have 1: "truthy (poNo (itemInput ?st))" by simp
  have 2: "filter (\<lambda>p. trim (to_String (field p ''poNo'')) = trim (to_String (poNo (itemInput ?st))))
             (psirData ?st) = [(''poNo'', JStr '' PO1''), (''indentNo'', JStr ''NEW'')] # []"
    by code_simp
  have 3: "truthy (field [(''poNo'', JStr '' PO1''), (''indentNo'', JStr ''NEW'')] ''indentNo'')"
    by (simp add: field_def)
  from form_fill_indent_overwrites [OF 1 2 3] show ?thesis
    by (simp add: field_def initialInput_def initialState_def)
qed

text \<open>
  As stated, C8 has a non-empty indent number kept. A form with indent number
  \<open>OLD\<close> whose purchase order has a prior receipt with \<open>NEW\<close> comes out with
  \<open>NEW\<close>.
\<close>

theorem form_fill_indent_counterexample:
  "indentNo (itemInput (form_fill_indent
     (initialState\<lparr>psirData := [[(''poNo'', JStr ''PO1''), (''indentNo'', JStr ''NEW'')]],
        itemInput := initialInput\<lparr>poNo := JStr ''PO1'', indentNo := JStr ''OLD''\<rparr>\<rparr>)))
   = JStr ''NEW''"
  by code_simp

section \<open>Choosing an item name\<close>

text \<open>
  Claim C10. A change of the item name sets, in one update of the form, the item name to
  the chosen value and the item code to the code of the first item master entry whose
  name equals that value, or to the empty text when no entry has that name; every other
  field of the form and the rest of the state stay as they are.
\<close>

theorem handleChange_itemName:
  assumes "ev_name e = ''itemName''"
  shows "handleChange Number st e =
           st\<lparr>itemInput := (itemInput st)
                \<lparr>itemName := JStr (ev_value e),
                 itemCode := JStr (case filter (\<lambda>item. im_itemName item = ev_value e) (itemMaster st) of
                                     [] \<Rightarrow> []
                                   | found # _ \<Rightarrow> im_itemCode found)\<rparr>\<rparr>"
  using assms
  by (simp add: handleChange_def Let_def find_filter split: list.splits)

theorem handleChange_itemName_witness:
  "itemInput (handleChange (\<lambda>s. JNum 0)
     (initialState\<lparr>itemMaster := [\<lparr>im_itemName = ''Bolt'', im_itemCode = ''B1''\<rparr>,
                                   \<lparr>im_itemName = ''Nut'', im_itemCode = ''N1''\<rparr>],
        itemInput := initialInput\<lparr>itemName := JStr ''Bolt'', itemCode := JStr ''B1''\<rparr>\<rparr>)
     \<lparr>ev_name = ''itemName'', ev_value = ''Nut'', ev_type = ''select-one''\<rparr>)
   = initialInput\<lparr>itemName := JStr ''Nut'', itemCode := JStr ''N1''\<rparr>
   \<and> itemInput (handleChange (\<lambda>s. JNum 0)
     (initialState\<lparr>itemMaster := [\<lparr>im_itemName = ''Bolt'', im_itemCode = ''B1''\<rparr>,
                                   \<lparr>im_itemName = ''Nut'', im_itemCode = ''N1''\<rparr>],
        itemInput := initialInput\<lparr>itemName := JStr ''Bolt'', itemCode := JStr ''B1''\<rparr>\<rparr>)
     \<lparr>ev_name = ''itemName'', ev_value = ''nut'', ev_type = ''select-one''\<rparr>)
   = initialInput\<lparr>itemName := JStr ''nut'', itemCode := JStr []\<rparr>"
proof -
  let ?st = "initialState\<lparr>itemMaster := [\<lparr>im_itemName = ''Bolt'', im_itemCode = ''B1''\<rparr>,
                                   \<lparr>im_itemName = ''Nut'', im_itemCode = ''N1''\<rparr>],
        itemInput := initialInput\<lparr>itemName := JStr ''Bolt'', itemCode := JStr ''B1''\<rparr>\<rparr>"
  let ?e1 = "\<lparr>ev_name = ''itemName'', ev_value = ''Nut'', ev_type = ''select-one''\<rparr>"
  let ?e2 = "\<lparr>ev_name = ''itemName'', ev_value = ''nut'', ev_type = ''select-one''\<rparr>"
  have 1: "ev_name ?e1 = ''itemName''" by simp
  have 2: "ev_name ?e2 = ''itemName''" by simp
  from handleChange_itemName [OF 1, of "\<lambda>s. JNum 0" ?st] handleChange_itemName [OF 2, of "\<lambda>s. JNum 0" ?st]
  show ?thesis by (simp add: initialInput_def)
qed

end
